theory Spec2Isabelle
  imports Main
begin

section \<open>JavaScript values used by the action\<close>

text \<open>
  The action is a single script, \<^verbatim>\<open>src/index.js\<close>. Strings are modelled as
  \<^typ>\<open>string\<close>; a value that may be \<^verbatim>\<open>null\<close> or \<^verbatim>\<open>undefined\<close> is an
  \<^typ>\<open>string option\<close>. A string is truthy when it is present and not empty, which is
  what \<^verbatim>\<open>if (x)\<close>, \<^verbatim>\<open>x && y\<close> and \<^verbatim>\<open>x || '-'\<close> test.
\<close>

fun truthy :: "string option \<Rightarrow> bool" where
  "truthy None = False"
| "truthy (Some s) = (s \<noteq> [])"

text \<open>\<^verbatim>\<open>x || '-'\<close>: the value itself when truthy, the sentinel otherwise.\<close>

fun or_dash :: "string option \<Rightarrow> string" where
  "or_dash None = ''-''"
| "or_dash (Some s) = (if s = [] then ''-'' else s)"

text \<open>\<^verbatim>\<open>s.split(sep)\<close> for a separator of one character: never the empty array.\<close>

fun split_str :: "char \<Rightarrow> string \<Rightarrow> string list" where
  "split_str sep [] = [[]]"
| "split_str sep (c # cs) =
     (if c = sep then [] # split_str sep cs
      else (case split_str sep cs of
              [] \<Rightarrow> [[c]]
            | p # ps \<Rightarrow> (c # p) # ps))"

text \<open>\<^verbatim>\<open>parts.join(sep)\<close>.\<close>

fun join_str :: "string \<Rightarrow> string list \<Rightarrow> string" where
  "join_str sep [] = []"
| "join_str sep [p] = p"
| "join_str sep (p # q # ps) = p @ sep @ join_str sep (q # ps)"

text \<open>\<^verbatim>\<open>xs[i]\<close>: \<^verbatim>\<open>undefined\<close> out of range.\<close>

definition at_index :: "'a list \<Rightarrow> nat \<Rightarrow> 'a option" where
  "at_index xs i = (if i < length xs then Some (xs ! i) else None)"

text \<open>\<^verbatim>\<open>xs.slice(from, to)\<close> for indices that are not negative.\<close>

definition slice :: "'a list \<Rightarrow> nat \<Rightarrow> nat \<Rightarrow> 'a list" where
  "slice xs from to = take (to - from) (drop from xs)"

text \<open>\<^verbatim>\<open>s.toLowerCase()\<close> on the ASCII letters, and \<^verbatim>\<open>s.endsWith(suffix)\<close>.\<close>

definition lower_char :: "char \<Rightarrow> char" where
  "lower_char c =
     (let n = (of_char c :: nat) in if 65 \<le> n \<and> n \<le> 90 then char_of (n + 32) else c)"

definition toLowerCase :: "string \<Rightarrow> string" where
  "toLowerCase s = map lower_char s"

definition endsWith :: "string \<Rightarrow> string \<Rightarrow> bool" where
  "endsWith s suffix =
     (length suffix \<le> length s \<and> drop (length s - length suffix) s = suffix)"

text \<open>
  \<^verbatim>\<open>s.trim()\<close>: white space is removed at both ends. Of JavaScript's white space the
  model knows the ASCII characters: tab, line feed, vertical tab, form feed, carriage
  return and space.
\<close>

definition is_space :: "char \<Rightarrow> bool" where
  "is_space c = (let n = (of_char c :: nat) in (9 \<le> n \<and> n \<le> 13) \<or> n = 32)"

definition trim :: "string \<Rightarrow> string" where
  "trim s = rev (dropWhile is_space (rev (dropWhile is_space s)))"

section \<open>Node's \<^verbatim>\<open>path.basename\<close> on POSIX paths\<close>

text \<open>
  \<^verbatim>\<open>path.basename(path, suffix)\<close> scans the path from its last character: trailing
  slashes are skipped, the scan stops at the first slash after the last component, and
  the suffix is compared character by character on the way. The scan's variables are
  \<^verbatim>\<open>end\<close>, \<^verbatim>\<open>matchedSlash\<close>, \<^verbatim>\<open>extIdx\<close> and \<^verbatim>\<open>firstNonSlashEnd\<close>; it returns
  \<^verbatim>\<open>start\<close> with them. The first argument \<open>n\<close> of the scan is \<^verbatim>\<open>i + 1\<close>.
\<close>

fun basename_scan ::
  "string \<Rightarrow> string \<Rightarrow> nat \<Rightarrow> int \<times> bool \<times> int \<times> int \<Rightarrow> nat \<times> int \<times> bool \<times> int \<times> int" where
  "basename_scan path suffix 0 vars = (0, vars)"
| "basename_scan path suffix (Suc i) (end, matchedSlash, extIdx, firstNonSlashEnd) =
     (if path ! i = CHR ''/'' then
        (if \<not> matchedSlash then (Suc i, end, matchedSlash, extIdx, firstNonSlashEnd)
         else basename_scan path suffix i (end, matchedSlash, extIdx, firstNonSlashEnd))
      else
        (let matchedSlash' = (if firstNonSlashEnd = -1 then False else matchedSlash);
             firstNonSlashEnd' = (if firstNonSlashEnd = -1 then int i + 1 else firstNonSlashEnd)
         in if 0 \<le> extIdx then
              (if path ! i = suffix ! nat extIdx then
                 (if extIdx - 1 = -1
                  then basename_scan path suffix i (int i, matchedSlash', -1, firstNonSlashEnd')
                  else basename_scan path suffix i (end, matchedSlash', extIdx - 1, firstNonSlashEnd'))
               else basename_scan path suffix i (firstNonSlashEnd', matchedSlash', -1, firstNonSlashEnd'))
            else basename_scan path suffix i (end, matchedSlash', extIdx, firstNonSlashEnd')))"

definition basename_ext :: "string \<Rightarrow> string \<Rightarrow> string" where
  "basename_ext path suffix =
     (if suffix \<noteq> [] \<and> length suffix \<le> length path then
        (if suffix = path then []
         else (case basename_scan path suffix (length path) (-1, True, int (length suffix) - 1, -1) of
                 (start, end, matchedSlash, extIdx, firstNonSlashEnd) \<Rightarrow>
                   (let end' = (if int start = end then firstNonSlashEnd
                                else if end = -1 then int (length path) else end)
                    in slice path start (nat end'))))
      else
        (case basename_scan path [] (length path) (-1, True, -1, -1) of
           (start, end, matchedSlash, extIdx, firstNonSlashEnd) \<Rightarrow>
             (if firstNonSlashEnd = -1 then [] else slice path start (nat firstNonSlashEnd))))"

text \<open>\<^verbatim>\<open>path.basename(path)\<close>, without a suffix.\<close>

definition basename :: "string \<Rightarrow> string" where
  "basename path = basename_ext path []"

section \<open>Package information from the file name\<close>

record fileInfo =
  fi_name :: string
  fi_group :: string
  fi_version :: string

text \<open>
  \<^verbatim>\<open>extractInfoFromFilename\<close>: the base name without \<^verbatim>\<open>.deb\<close> is split at the
  underscores; the first part is the name, the last part the group, the parts between
  them, joined again, the version; an empty field becomes the sentinel \<^verbatim>\<open>'-'\<close>.
\<close>

definition extractInfoFromFilename :: "string \<Rightarrow> fileInfo" where
  "extractInfoFromFilename filename =
     (let basename = basename_ext filename ''.deb'';
          parts = split_str CHR ''_'' basename;
          name = at_index parts 0;
          group = at_index parts (length parts - 1);
          version = (if 2 < length parts then join_str ''_'' (slice parts 1 (length parts - 1)) else [])
      in \<lparr> fi_name = or_dash name, fi_group = or_dash group, fi_version = or_dash (Some version) \<rparr>)"

section \<open>The registry, the file system and the run's state\<close>

text \<open>
  An error is a thrown JavaScript exception, with its message. A function of the
  script that can throw returns \<open>error + 'a\<close>, with \<open>Inl\<close> for the exception.
\<close>

datatype error = Error string

text \<open>
  An item of a page of \<^verbatim>\<open>GET /service/rest/v1/components\<close> as the registry
  sends it, and the record \<^verbatim>\<open>getComponents\<close> keeps of it.
\<close>

record checksum =
  checksum_sha256 :: "string option"

record asset =
  asset_checksum :: "checksum option"

record item =
  item_id :: string
  item_name :: string
  item_group :: "string option"
  item_version :: "string option"
  item_assets :: "asset list option"

record page =
  page_items :: "item list option"
  page_continuationToken :: "string option"

record component =
  comp_id :: string
  comp_name :: string
  comp_group :: string
  comp_version :: string
  comp_sha256 :: string

record task =
  task_id :: string
  task_type :: string

text \<open>
  The Axios configuration built by \<^verbatim>\<open>run\<close>. Every request carries it unchanged
  (the upload and the task run add a content type), so a request is recorded by the
  call that issued it and its URL; the upload also by the file name and the bytes of
  its form.
\<close>

record config =
  baseURL :: string
  auth_username :: string
  auth_password :: string
  csrfToken :: string

datatype request =
    ListComponents string
  | DeleteComponent string
  | UploadComponent string string string
  | ListTasks string
  | RunTask string

datatype stats = IsFile | IsDirectory | IsOther

text \<open>
  Everything outside the script. The registry is a black box: its answer to a request
  may depend on every request the run has issued so far, so each HTTP call is a function
  of the history, the list of requests up to and including the one being answered.
  \<open>Inl\<close> is a rejected promise (no connection, or a status Axios rejects); \<open>Inr\<close> carries
  the status and, where the script reads it, the body. The file system is a function
  of the path, the same for the whole run; \<^verbatim>\<open>dpkg -I\<close> gives the package, version
  and architecture fields that the script's three patterns found in its output, trimmed.
  The functions of Node's \<^verbatim>\<open>path\<close> that only build the names of files, and the
  digest of \<^verbatim>\<open>crypto\<close>, are taken as given; \<^verbatim>\<open>path.basename\<close>, on which the
  descriptor depends, is modelled above. \<open>csrf_digits\<close> are the digits of the clock and
  of the random number in the token of the request headers.
\<close>

record world =
  http_get_components :: "request list \<Rightarrow> error + page"
  http_delete_component :: "request list \<Rightarrow> error + nat"
  http_post_component :: "request list \<Rightarrow> error + nat"
  http_get_tasks :: "request list \<Rightarrow> error + nat \<times> task list option"
  http_post_task_run :: "request list \<Rightarrow> error + nat"
  fs_stat :: "string \<Rightarrow> error + stats"
  fs_lstat_isSymbolicLink :: "string \<Rightarrow> error + bool"
  fs_readlink :: "string \<Rightarrow> error + string"
  fs_readFile :: "string \<Rightarrow> error + string"
  fs_readdir :: "string \<Rightarrow> error + string list"
  dpkg_I :: "string \<Rightarrow> error + string option \<times> string option \<times> string option"
  sha256_hex :: "string \<Rightarrow> string"
  path_isAbsolute :: "string \<Rightarrow> bool"
  path_dirname :: "string \<Rightarrow> string"
  path_resolve :: "string \<Rightarrow> string \<Rightarrow> string"
  path_join :: "string \<Rightarrow> string \<Rightarrow> string"
  csrf_digits :: string

text \<open>
  The state of a run: the global \<^verbatim>\<open>hasDeletedComponent\<close>, the requests issued so
  far, oldest first, and the components the matching loop has reported as matching
  (its \<^verbatim>\<open>console.log\<close> at the head of the branch).
\<close>

record state =
  hasDeletedComponent :: bool
  requests :: "request list"
  matched :: "component list"

definition initial_state :: state where
  "initial_state = \<lparr> hasDeletedComponent = False, requests = [], matched = [] \<rparr>"

definition issue :: "request \<Rightarrow> state \<Rightarrow> state" where
  "issue r st = st\<lparr> requests := requests st @ [r] \<rparr>"

section \<open>The script's functions\<close>

definition generateSHA256 :: "world \<Rightarrow> string \<Rightarrow> string" where
  "generateSHA256 w data = sha256_hex w data"

text \<open>\<^verbatim>\<open>getActualFilePath\<close>: any failure gives the path back.\<close>

definition getActualFilePath :: "world \<Rightarrow> string \<Rightarrow> string" where
  "getActualFilePath w filePath =
     (case fs_lstat_isSymbolicLink w filePath of
        Inl e \<Rightarrow> filePath
      | Inr isSymbolicLink \<Rightarrow>
          (if isSymbolicLink then
             (case fs_readlink w filePath of
                Inl e \<Rightarrow> filePath
              | Inr targetPath \<Rightarrow>
                  (if \<not> path_isAbsolute w targetPath
                   then path_resolve w (path_dirname w filePath) targetPath
                   else targetPath))
           else filePath))"

text \<open>
  \<^verbatim>\<open>getDebInfoWithDpkg\<close>: the three fields when \<^verbatim>\<open>dpkg\<close> gave all of them
  (each is then present, so \<^term>\<open>the\<close> reads it), the file name's otherwise, also when
  \<^verbatim>\<open>dpkg\<close> fails.
\<close>

definition getDebInfoWithDpkg :: "world \<Rightarrow> string \<Rightarrow> fileInfo" where
  "getDebInfoWithDpkg w filePath =
     (case dpkg_I w filePath of
        Inl e \<Rightarrow> extractInfoFromFilename filePath
      | Inr (name, version, arch) \<Rightarrow>
          (if truthy name \<and> truthy version \<and> truthy arch
           then \<lparr> fi_name = the name, fi_group = the arch, fi_version = the version \<rparr>
           else extractInfoFromFilename filePath))"

text \<open>
  The record \<^verbatim>\<open>getComponents\<close> pushes for an item: a missing group or version
  becomes \<^verbatim>\<open>'-'\<close>, and the digest is \<^verbatim>\<open>'-'\<close> unless the first asset has a
  checksum with a \<^verbatim>\<open>sha256\<close> that is not empty.
\<close>

definition component_of_item :: "item \<Rightarrow> component" where
  "component_of_item item =
     \<lparr> comp_id = item_id item,
       comp_name = item_name item,
       comp_group = or_dash (item_group item),
       comp_version = or_dash (item_version item),
       comp_sha256 =
         (case item_assets item of
            None \<Rightarrow> ''-''
          | Some [] \<Rightarrow> ''-''
          | Some (a # _) \<Rightarrow>
              (case asset_checksum a of
                 None \<Rightarrow> ''-''
               | Some c \<Rightarrow> or_dash (checksum_sha256 c))) \<rparr>"

definition page_components :: "page \<Rightarrow> component list" where
  "page_components p = (case page_items p of None \<Rightarrow> [] | Some items \<Rightarrow> map component_of_item items)"

definition components_url :: "config \<Rightarrow> string \<Rightarrow> string option \<Rightarrow> string" where
  "components_url config repository continuationToken =
     baseURL config @ ''/service/rest/v1/components?repository='' @ repository @
     (case continuationToken of
        None \<Rightarrow> []
      | Some t \<Rightarrow> (if t \<noteq> [] then ''&continuationToken='' @ t else []))"

text \<open>
  The \<^verbatim>\<open>do ... while (continuationToken)\<close> of \<^verbatim>\<open>getComponents\<close>. Nothing bounds
  the number of pages, so the loop need not end: not returning is \<open>None\<close>.
\<close>

partial_function (option) getComponents_loop ::
  "world \<Rightarrow> config \<Rightarrow> string \<Rightarrow> component list \<Rightarrow> string option \<Rightarrow> state
   \<Rightarrow> ((error + component list) \<times> state) option" where
  "getComponents_loop w config repository components continuationToken st =
     (let st1 = issue (ListComponents (components_url config repository continuationToken)) st
      in case http_get_components w (requests st1) of
           Inl e \<Rightarrow> Some (Inl e, st1)
         | Inr p \<Rightarrow>
             (if truthy (page_continuationToken p)
              then getComponents_loop w config repository (components @ page_components p)
                     (page_continuationToken p) st1
              else Some (Inr (components @ page_components p), st1)))"

declare getComponents_loop.simps [code]

definition getComponents ::
  "world \<Rightarrow> config \<Rightarrow> string \<Rightarrow> state \<Rightarrow> ((error + component list) \<times> state) option" where
  "getComponents w config repository st = getComponents_loop w config repository [] None st"

definition delete_url :: "config \<Rightarrow> string \<Rightarrow> string" where
  "delete_url config ident = baseURL config @ ''/service/rest/v1/components/'' @ ident"

text \<open>\<^verbatim>\<open>deleteComponent\<close>: it never throws; only the status 204 sets the flag.\<close>

definition deleteComponent :: "world \<Rightarrow> config \<Rightarrow> string \<Rightarrow> state \<Rightarrow> bool \<times> state" where
  "deleteComponent w config ident st =
     (let st1 = issue (DeleteComponent (delete_url config ident)) st
      in case http_delete_component w (requests st1) of
           Inl e \<Rightarrow> (False, st1)
         | Inr status \<Rightarrow>
             (if status = 204 then (True, st1\<lparr> hasDeletedComponent := True \<rparr>)
              else (False, st1)))"

definition upload_url :: "config \<Rightarrow> string \<Rightarrow> string" where
  "upload_url config repository = baseURL config @ ''/service/rest/v1/components?repository='' @ repository"

text \<open>
  \<^verbatim>\<open>uploadComponent\<close>: the file is read inside the \<^verbatim>\<open>try\<close>, so neither an
  unreadable file nor a failed request throws; the function returns \<^verbatim>\<open>false\<close>.
\<close>

definition uploadComponent :: "world \<Rightarrow> config \<Rightarrow> string \<Rightarrow> string \<Rightarrow> state \<Rightarrow> bool \<times> state" where
  "uploadComponent w config repository filePath st =
     (case fs_readFile w filePath of
        Inl e \<Rightarrow> (False, st)
      | Inr fileContent \<Rightarrow>
          (let st1 = issue (UploadComponent (upload_url config repository) (basename filePath) fileContent) st
           in case http_post_component w (requests st1) of
                Inl e \<Rightarrow> (False, st1)
              | Inr status \<Rightarrow> (status = 204, st1)))"

definition tasks_url :: "config \<Rightarrow> string" where
  "tasks_url config = baseURL config @ ''/service/rest/v1/tasks''"

definition task_run_url :: "config \<Rightarrow> string \<Rightarrow> string" where
  "task_run_url config ident = baseURL config @ ''/service/rest/v1/tasks/'' @ ident @ ''/run''"

text \<open>
  \<^verbatim>\<open>runRebuildAptMetadata\<close>: it never throws. A body without a task list makes
  \<^verbatim>\<open>find\<close> throw inside the \<^verbatim>\<open>try\<close>, which returns \<^verbatim>\<open>false\<close> as well.
\<close>

definition runRebuildAptMetadata :: "world \<Rightarrow> config \<Rightarrow> state \<Rightarrow> bool \<times> state" where
  "runRebuildAptMetadata w config st =
     (let st1 = issue (ListTasks (tasks_url config)) st
      in case http_get_tasks w (requests st1) of
           Inl e \<Rightarrow> (False, st1)
         | Inr (status, items) \<Rightarrow>
             (if status \<noteq> 200 then (False, st1)
              else (case items of
                      None \<Rightarrow> (False, st1)
                    | Some tasks \<Rightarrow>
                        (case find (\<lambda>t. task_type t = ''repository.apt.rebuild.metadata'') tasks of
                           None \<Rightarrow> (False, st1)
                         | Some aptTask \<Rightarrow>
                             (let st2 = issue (RunTask (task_run_url config (task_id aptTask))) st1
                              in case http_post_task_run w (requests st2) of
                                   Inl e \<Rightarrow> (False, st2)
                                 | Inr status \<Rightarrow> (status = 204, st2))))))"

text \<open>The condition of the matching loop, as \<^verbatim>\<open>processSingleFile\<close> writes it.\<close>

definition matches :: "component \<Rightarrow> fileInfo \<Rightarrow> bool" where
  "matches cmp fileInfo =
     (comp_name cmp = fi_name fileInfo \<and>
      (comp_group cmp = fi_group fileInfo \<or> comp_group cmp = ''-'' \<or> fi_group fileInfo = ''-'') \<and>
      (comp_version cmp = fi_version fileInfo \<or> comp_version cmp = ''-'' \<or> fi_version fileInfo = ''-''))"

text \<open>
  The \<^verbatim>\<open>for (const comp of components)\<close> of \<^verbatim>\<open>processSingleFile\<close>, with
  \<^verbatim>\<open>needUpload\<close> as an accumulator. The result of \<^verbatim>\<open>deleteComponent\<close> is dropped.
\<close>

fun match_loop ::
  "world \<Rightarrow> config \<Rightarrow> fileInfo \<Rightarrow> string \<Rightarrow> component list \<Rightarrow> bool \<Rightarrow> state \<Rightarrow> bool \<times> state" where
  "match_loop w config fileInfo fileSha256 [] needUpload st = (needUpload, st)"
| "match_loop w config fileInfo fileSha256 (cmp # comps) needUpload st =
     (if matches cmp fileInfo then
        (let st1 = st\<lparr> matched := matched st @ [cmp] \<rparr>
         in if comp_sha256 cmp = fileSha256
            then match_loop w config fileInfo fileSha256 comps False st1
            else match_loop w config fileInfo fileSha256 comps needUpload
                   (snd (deleteComponent w config (comp_id cmp) st1)))
      else match_loop w config fileInfo fileSha256 comps needUpload st)"

text \<open>
  \<^verbatim>\<open>processSingleFile\<close>: the only call that can throw is the read of the file for
  its digest; the result of \<^verbatim>\<open>uploadComponent\<close> is dropped.
\<close>

definition processSingleFile ::
  "world \<Rightarrow> config \<Rightarrow> string \<Rightarrow> string \<Rightarrow> component list \<Rightarrow> state \<Rightarrow> (error + unit) \<times> state" where
  "processSingleFile w config repository filePath components st =
     (let actualFilePath = getActualFilePath w filePath;
          fileInfo = getDebInfoWithDpkg w actualFilePath
      in case fs_readFile w actualFilePath of
           Inl e \<Rightarrow> (Inl e, st)
         | Inr fileData \<Rightarrow>
             (let fileSha256 = generateSHA256 w fileData
              in case match_loop w config fileInfo fileSha256 components True st of
                   (needUpload, st1) \<Rightarrow>
                     (if needUpload
                      then (Inr (), snd (uploadComponent w config repository actualFilePath st1))
                      else (Inr (), st1))))"

text \<open>The \<^verbatim>\<open>for (const file of debFiles)\<close> of \<^verbatim>\<open>run\<close>: a throw ends it.\<close>

fun process_files ::
  "world \<Rightarrow> config \<Rightarrow> string \<Rightarrow> string \<Rightarrow> string list \<Rightarrow> component list \<Rightarrow> state
   \<Rightarrow> (error + unit) \<times> state" where
  "process_files w config repository uploadPath [] components st = (Inr (), st)"
| "process_files w config repository uploadPath (file # files) components st =
     (let filePath = (if uploadPath = ''.'' then file else path_join w uploadPath file)
      in case processSingleFile w config repository filePath components st of
           (Inl e, st1) \<Rightarrow> (Inl e, st1)
         | (Inr u, st1) \<Rightarrow> process_files w config repository uploadPath files components st1)"

text \<open>
  How \<^verbatim>\<open>run\<close> ends: \<^verbatim>\<open>core.setFailed\<close> with one of its two messages or with the
  message of a caught exception, or \<^verbatim>\<open>core.setOutput('result', ...)\<close> with the
  message that the upload succeeded.
\<close>

datatype failure = NotADebFile string | NeitherFileNorDirectory string | Thrown error

datatype outcome = SetFailed failure | SetOutputResult

record inputs =
  input_repository :: string
  input_path :: string
  input_nexus_url :: string
  input_nexus_user :: string
  input_nexus_password :: string

text \<open>
  \<^verbatim>\<open>core.getInput(name, { required: true })\<close> of the Actions toolkit: it throws when
  the value is empty and returns the value trimmed otherwise, so a value of white space
  only is accepted and read as the empty string.
\<close>

definition getInput :: "string \<Rightarrow> string \<Rightarrow> error + string" where
  "getInput name val =
     (if val = [] then Inl (Error (''Input required and not supplied: '' @ name)) else Inr (trim val))"

text \<open>The end of \<^verbatim>\<open>run\<close>, after the files: the conditional rebuild, then the output.\<close>

definition run_finish :: "world \<Rightarrow> config \<Rightarrow> state \<Rightarrow> outcome \<times> state" where
  "run_finish w config st =
     (if hasDeletedComponent st
      then (SetOutputResult, snd (runRebuildAptMetadata w config st))
      else (SetOutputResult, st))"

text \<open>\<^verbatim>\<open>run\<close> from \<^verbatim>\<open>statAsync(uploadPath)\<close> on, with the components listed.\<close>

definition run_path ::
  "world \<Rightarrow> config \<Rightarrow> string \<Rightarrow> string \<Rightarrow> component list \<Rightarrow> state \<Rightarrow> outcome \<times> state" where
  "run_path w config repository uploadPath components st =
     (case fs_stat w uploadPath of
        Inl e \<Rightarrow> (SetFailed (Thrown e), st)
      | Inr IsFile \<Rightarrow>
          (if endsWith (toLowerCase uploadPath) ''.deb'' then
             (case processSingleFile w config repository uploadPath components st of
                (Inl e, st1) \<Rightarrow> (SetFailed (Thrown e), st1)
              | (Inr u, st1) \<Rightarrow> run_finish w config st1)
           else (SetFailed (NotADebFile uploadPath), st))
      | Inr IsDirectory \<Rightarrow>
          (case fs_readdir w uploadPath of
             Inl e \<Rightarrow> (SetFailed (Thrown e), st)
           | Inr files \<Rightarrow>
               (let debFiles = filter (\<lambda>file. endsWith (toLowerCase file) ''.deb'') files
                in case process_files w config repository uploadPath debFiles components st of
                     (Inl e, st1) \<Rightarrow> (SetFailed (Thrown e), st1)
                   | (Inr u, st1) \<Rightarrow> run_finish w config st1))
      | Inr IsOther \<Rightarrow> (SetFailed (NeitherFileNorDirectory uploadPath), st))"

text \<open>
  \<^verbatim>\<open>run\<close>: the five inputs, the configuration, the inventory, then the path. The
  probe \<^verbatim>\<open>dpkg --version\<close> between the inventory and the path only writes to the
  log. The script calls \<^verbatim>\<open>run\<close> once, with \<^verbatim>\<open>hasDeletedComponent\<close> as
  initialised, and a \<^verbatim>\<open>run\<close> whose inventory loop does not end does not return.
\<close>

definition read_inputs :: "world \<Rightarrow> inputs \<Rightarrow> error + string \<times> string \<times> config" where
  "read_inputs w inp =
     (case getInput ''repository'' (input_repository inp) of
        Inl e \<Rightarrow> Inl e
      | Inr repository \<Rightarrow>
     (case getInput ''path'' (input_path inp) of
        Inl e \<Rightarrow> Inl e
      | Inr uploadPath \<Rightarrow>
     (case getInput ''nexus_url'' (input_nexus_url inp) of
        Inl e \<Rightarrow> Inl e
      | Inr nexusUrl \<Rightarrow>
     (case getInput ''nexus_user'' (input_nexus_user inp) of
        Inl e \<Rightarrow> Inl e
      | Inr nexusUser \<Rightarrow>
     (case getInput ''nexus_password'' (input_nexus_password inp) of
        Inl e \<Rightarrow> Inl e
      | Inr nexusPassword \<Rightarrow>
          Inr (repository, uploadPath,
               \<lparr> baseURL = nexusUrl, auth_username = nexusUser, auth_password = nexusPassword,
                 csrfToken = ''0.'' @ csrf_digits w \<rparr>))))))"

definition run :: "world \<Rightarrow> inputs \<Rightarrow> (outcome \<times> state) option" where
  "run w inp =
     (case read_inputs w inp of
        Inl e \<Rightarrow> Some (SetFailed (Thrown e), initial_state)
      | Inr (repository, uploadPath, config) \<Rightarrow>
          (case getComponents w config repository initial_state of
             None \<Rightarrow> None
           | Some (Inl e, st) \<Rightarrow> Some (SetFailed (Thrown e), st)
           | Some (Inr components, st) \<Rightarrow> Some (run_path w config repository uploadPath components st)))"

section \<open>Reading a run's requests\<close>

fun is_listing :: "request \<Rightarrow> bool" where
  "is_listing (ListComponents u) = True"
| "is_listing r = False"

fun is_delete :: "request \<Rightarrow> bool" where
  "is_delete (DeleteComponent u) = True"
| "is_delete r = False"

fun is_upload :: "request \<Rightarrow> bool" where
  "is_upload (UploadComponent u f d) = True"
| "is_upload r = False"

fun is_task_call :: "request \<Rightarrow> bool" where
  "is_task_call (ListTasks u) = True"
| "is_task_call (RunTask u) = True"
| "is_task_call r = False"

text \<open>
  The histories of a list of requests are its prefixes that are not empty: what the
  registry had seen when it answered each request. A deletion occurred among the
  requests when the registry answered one of the delete requests with the status 204.
\<close>

definition histories :: "request list \<Rightarrow> request list list" where
  "histories rs = map (\<lambda>n. take n rs) [1..<Suc (length rs)]"

definition deletion_occurred :: "world \<Rightarrow> request list \<Rightarrow> bool" where
  "deletion_occurred w rs =
     (\<exists>h \<in> set (histories rs). is_delete (last h) \<and> http_delete_component w h = Inr 204)"

definition flag_tracks :: "world \<Rightarrow> state \<Rightarrow> bool" where
  "flag_tracks w st = (hasDeletedComponent st = deletion_occurred w (requests st))"

section \<open>Example registries and directories\<close>

text \<open>
  A package \<^verbatim>\<open>foo_1.0.0_amd64.deb\<close> whose registry copy is of an older build, a
  package \<^verbatim>\<open>bar_2.1_all.deb\<close>, a directory \<^verbatim>\<open>dist\<close> with both, and a directory
  \<^verbatim>\<open>out\<close> in which the entry \<^verbatim>\<open>zzz.deb\<close> is itself a directory, so that
  reading it fails. A directory is listed with its names in order. \<^verbatim>\<open>dpkg\<close> is
  not installed and nothing is a symbolic link.
\<close>

definition foo_sha256 :: string where
  "foo_sha256 = ''3962d54306b3b7492dd4f7977ce184e6c53f0f3455a489fed90a46e6e06edfb1''"

definition foo_old_sha256 :: string where
  "foo_old_sha256 = ''ef6413a1d8a41ae6823b216c59a69a1d5e7e259aa696d67fd1f7f3f8ce2afdca''"

definition example_sha256 :: "string \<Rightarrow> string" where
  "example_sha256 d =
     (if d = ''foo 1.0.0 amd64 build 2'' then foo_sha256
      else if d = ''foo 1.0.0 amd64 build 1'' then foo_old_sha256
      else if d = ''bar 2.1 all'' then ''bd3a5e41ba51b2e30d7e251f5e74fd07b2fd34dff45a4887f679fd21554b74cf''
      else ''e3b0c44298fc1c149afbf4c8996fb92427ae41e4649b934ca495991b7852b855'')"

definition example_stat :: "string \<Rightarrow> error + stats" where
  "example_stat p =
     (if p = ''dist'' \<or> p = ''out'' then Inr IsDirectory
      else if p = ''foo_1.0.0_amd64.deb'' \<or> p = ''readme.txt'' then Inr IsFile
      else Inl (Error ''ENOENT: no such file or directory''))"

definition example_readdir :: "string \<Rightarrow> error + string list" where
  "example_readdir p =
     (if p = ''dist'' then Inr [''bar_2.1_all.deb'', ''foo_1.0.0_amd64.deb'', ''notes.txt'']
      else if p = ''out'' then Inr [''foo_1.0.0_amd64.deb'', ''zzz.deb'']
      else Inl (Error ''ENOTDIR: not a directory''))"

definition example_readFile :: "string \<Rightarrow> error + string" where
  "example_readFile p =
     (if p = ''foo_1.0.0_amd64.deb'' \<or> p = ''dist/foo_1.0.0_amd64.deb'' \<or> p = ''out/foo_1.0.0_amd64.deb''
      then Inr ''foo 1.0.0 amd64 build 2''
      else if p = ''dist/bar_2.1_all.deb'' then Inr ''bar 2.1 all''
      else if p = ''readme.txt'' then Inr ''read me''
      else if p = ''out/zzz.deb'' then Inl (Error ''EISDIR: illegal operation on a directory, read'')
      else Inl (Error ''ENOENT: no such file or directory''))"

definition example_world ::
  "(request list \<Rightarrow> error + page) \<Rightarrow> (request list \<Rightarrow> error + nat) \<Rightarrow> (request list \<Rightarrow> error + nat)
   \<Rightarrow> world" where
  "example_world pages deletes uploads =
     \<lparr> http_get_components = pages,
       http_delete_component = deletes,
       http_post_component = uploads,
       http_get_tasks =
         (\<lambda>h. Inr (200, Some [\<lparr> task_id = ''7f3a'', task_type = ''repository.apt.rebuild.metadata'' \<rparr>])),
       http_post_task_run = (\<lambda>h. Inr 204),
       fs_stat = example_stat,
       fs_lstat_isSymbolicLink = (\<lambda>p. Inr False),
       fs_readlink = (\<lambda>p. Inl (Error ''EINVAL: invalid argument, readlink'')),
       fs_readFile = example_readFile,
       fs_readdir = example_readdir,
       dpkg_I = (\<lambda>p. Inl (Error ''Command failed: dpkg -I'')),
       sha256_hex = example_sha256,
       path_isAbsolute = (\<lambda>p. take 1 p = ''/''),
       path_dirname = (\<lambda>p. ''.''),
       path_resolve = (\<lambda>d p. p),
       path_join = (\<lambda>d p. d @ ''/'' @ p),
       csrf_digits = ''17303893000004821375'' \<rparr>"

text \<open>The same, on a registry that has no task for the metadata of apt repositories.\<close>

definition example_world_without_task ::
  "(request list \<Rightarrow> error + page) \<Rightarrow> (request list \<Rightarrow> error + nat) \<Rightarrow> (request list \<Rightarrow> error + nat)
   \<Rightarrow> world" where
  "example_world_without_task pages deletes uploads =
     (example_world pages deletes uploads)
       \<lparr> http_get_tasks :=
           (\<lambda>h. Inr (200, Some [\<lparr> task_id = ''2c1e'', task_type = ''repository.cleanup'' \<rparr>])) \<rparr>"

definition foo_item :: "string \<Rightarrow> string \<Rightarrow> item" where
  "foo_item ident sha =
     \<lparr> item_id = ident, item_name = ''foo'', item_group = Some ''amd64'', item_version = Some ''1.0.0'',
       item_assets = Some [\<lparr> asset_checksum = Some \<lparr> checksum_sha256 = Some sha \<rparr> \<rparr>] \<rparr>"

definition one_page :: "item list \<Rightarrow> request list \<Rightarrow> error + page" where
  "one_page items h = Inr \<lparr> page_items = Some items, page_continuationToken = None \<rparr>"

definition first_page :: page where
  "first_page = \<lparr> page_items = Some [foo_item ''c1'' foo_old_sha256], page_continuationToken = Some ''88491cd1d185dd136f143f20c4e7d50c'' \<rparr>"

definition last_page :: page where
  "last_page = \<lparr> page_items = Some [foo_item ''c2'' foo_sha256], page_continuationToken = None \<rparr>"

definition two_pages :: "request list \<Rightarrow> error + page" where
  "two_pages h = (if length h = 1 then Inr first_page else Inr last_page)"

definition accepted :: "request list \<Rightarrow> error + nat" where
  "accepted h = Inr 204"

definition rejected :: "request list \<Rightarrow> error + nat" where
  "rejected h = Inl (Error ''Request failed with status code 500'')"

definition example_config :: config where
  "example_config =
     \<lparr> baseURL = ''http://nexus:8081'', auth_username = ''admin'', auth_password = ''admin123'',
       csrfToken = ''0.17303893000004821375'' \<rparr>"

definition example_inputs :: "string \<Rightarrow> inputs" where
  "example_inputs p =
     \<lparr> input_repository = ''apt-hosted'', input_path = p, input_nexus_url = ''http://nexus:8081'',
       input_nexus_user = ''admin'', input_nexus_password = ''admin123'' \<rparr>"

definition foo_component :: "string \<Rightarrow> string \<Rightarrow> component" where
  "foo_component ident sha =
     \<lparr> comp_id = ident, comp_name = ''foo'', comp_group = ''amd64'', comp_version = ''1.0.0'',
       comp_sha256 = sha \<rparr>"

definition bar_component :: component where
  "bar_component =
     \<lparr> comp_id = ''c3'', comp_name = ''bar'', comp_group = ''all'', comp_version = ''2.1'',
       comp_sha256 = ''bd3a5e41ba51b2e30d7e251f5e74fd07b2fd34dff45a4887f679fd21554b74cf'' \<rparr>"

definition bare_foo_component :: component where
  "bare_foo_component =
     \<lparr> comp_id = ''c4'', comp_name = ''foo'', comp_group = ''-'', comp_version = ''-'', comp_sha256 = ''-'' \<rparr>"

section \<open>Effects of the single calls\<close>

lemma issue_simps [simp]:
  "requests (issue r st) = requests st @ [r]"
  "hasDeletedComponent (issue r st) = hasDeletedComponent st"
  "matched (issue r st) = matched st"
  by (simp_all add: issue_def)

lemma histories_snoc: "histories (rs @ [r]) = histories rs @ [rs @ [r]]"
  by (auto simp: histories_def)

lemma deletion_occurred_snoc:
  "deletion_occurred w (rs @ [r]) =
     (deletion_occurred w rs \<or> (is_delete r \<and> http_delete_component w (rs @ [r]) = Inr 204))"
  by (auto simp: deletion_occurred_def histories_snoc)

lemma deletion_occurred_Nil [simp]: "\<not> deletion_occurred w []"
  by (simp add: deletion_occurred_def histories_def)

lemma deletion_occurred_append:
  "\<forall>r \<in> set xs. \<not> is_delete r \<Longrightarrow> deletion_occurred w (rs @ xs) = deletion_occurred w rs"
proof (induction xs rule: rev_induct)
  case Nil
  then show ?case by simp
next
  case (snoc x xs)
  then show ?case using deletion_occurred_snoc [of w "rs @ xs" x] by simp
qed

lemma deleteComponent_requests:
  "requests (snd (deleteComponent w c i st)) = requests st @ [DeleteComponent (delete_url c i)]"
  by (simp add: deleteComponent_def Let_def split: sum.splits)

lemma deleteComponent_matched:
  "matched (snd (deleteComponent w c i st)) = matched st"
  by (simp add: deleteComponent_def Let_def split: sum.splits)

lemma deleteComponent_flag:
  "hasDeletedComponent (snd (deleteComponent w c i st)) =
     (hasDeletedComponent st \<or>
      http_delete_component w (requests st @ [DeleteComponent (delete_url c i)]) = Inr 204)"
  by (auto simp: deleteComponent_def Let_def split: sum.splits)

lemma deleteComponent_tracks:
  "flag_tracks w st \<Longrightarrow> flag_tracks w (snd (deleteComponent w c i st))"
  by (simp add: flag_tracks_def deleteComponent_flag deleteComponent_requests deletion_occurred_snoc)

lemma uploadComponent_flag:
  "hasDeletedComponent (snd (uploadComponent w c repo f st)) = hasDeletedComponent st"
  by (simp add: uploadComponent_def Let_def split: sum.splits)

lemma uploadComponent_matched:
  "matched (snd (uploadComponent w c repo f st)) = matched st"
  by (simp add: uploadComponent_def Let_def split: sum.splits)

lemma uploadComponent_requests:
  "requests (snd (uploadComponent w c repo f st)) =
     requests st @ (case fs_readFile w f of
                      Inl e \<Rightarrow> []
                    | Inr d \<Rightarrow> [UploadComponent (upload_url c repo) (basename f) d])"
  by (simp add: uploadComponent_def Let_def split: sum.splits)

lemma uploadComponent_tracks:
  "flag_tracks w st \<Longrightarrow> flag_tracks w (snd (uploadComponent w c repo f st))"
  by (simp add: flag_tracks_def uploadComponent_flag uploadComponent_requests deletion_occurred_snoc
      split: sum.splits)

lemma match_loop_needUpload:
  "fst (match_loop w c fi sha comps n st) =
     (n \<and> \<not> (\<exists>x \<in> set comps. matches x fi \<and> comp_sha256 x = sha))"
  by (induction comps arbitrary: n st) (auto simp: Let_def)

lemma match_loop_matched:
  "matched (snd (match_loop w c fi sha comps n st)) = matched st @ filter (\<lambda>x. matches x fi) comps"
  by (induction comps arbitrary: n st) (auto simp: Let_def deleteComponent_matched)

lemma match_loop_requests:
  "requests (snd (match_loop w c fi sha comps n st)) =
     requests st @ map (\<lambda>x. DeleteComponent (delete_url c (comp_id x)))
                     (filter (\<lambda>x. matches x fi \<and> comp_sha256 x \<noteq> sha) comps)"
  by (induction comps arbitrary: n st) (auto simp: Let_def deleteComponent_requests)

lemma flag_tracks_matched [simp]:
  "flag_tracks w (st\<lparr> matched := m \<rparr>) = flag_tracks w st"
  by (simp add: flag_tracks_def)

lemma match_loop_tracks:
  "flag_tracks w st \<Longrightarrow> flag_tracks w (snd (match_loop w c fi sha comps n st))"
  by (induction comps arbitrary: n st) (auto simp: Let_def deleteComponent_tracks)

lemma match_loop_flag_mono:
  "hasDeletedComponent st \<Longrightarrow> hasDeletedComponent (snd (match_loop w c fi sha comps n st))"
  by (induction comps arbitrary: n st) (auto simp: Let_def deleteComponent_flag)

section \<open>The inventory loop\<close>

lemma getComponents_loop_effect:
  "getComponents_loop w c repo acc tok st = Some y \<Longrightarrow>
     hasDeletedComponent (snd y) = hasDeletedComponent st \<and> matched (snd y) = matched st \<and>
     (\<exists>rs. rs \<noteq> [] \<and> requests (snd y) = requests st @ rs \<and> (\<forall>r \<in> set rs. is_listing r))"
proof (induct w c repo acc tok st y rule: getComponents_loop.raw_induct [rotated -1, consumes 1, case_names step])
  case (step loop w c repo acc tok st y)
  let ?st1 = "issue (ListComponents (components_url c repo tok)) st"
  show ?case
  proof (cases "http_get_components w (requests ?st1)")
    case (Inl e)
    with step(2) have "y = (Inl e, ?st1)" by (simp add: Let_def)
    then show ?thesis by simp
  next
    case (Inr p)
    show ?thesis
    proof (cases "truthy (page_continuationToken p)")
      case True
      with step(2) Inr
      have "loop w c repo (acc @ page_components p) (page_continuationToken p) ?st1 = Some y"
        by (simp add: Let_def)
      from step(1) [OF this] obtain rs where
        a: "hasDeletedComponent (snd y) = hasDeletedComponent ?st1" "matched (snd y) = matched ?st1"
        and b: "requests (snd y) = requests ?st1 @ rs" "\<forall>r \<in> set rs. is_listing r"
        by blast
      from b have "requests (snd y) = requests st @ (ListComponents (components_url c repo tok) # rs)"
        by simp
      moreover have "\<forall>r \<in> set (ListComponents (components_url c repo tok) # rs). is_listing r"
        using b(2) by simp
      ultimately show ?thesis using a by (metis issue_simps(2,3) list.distinct(1))
    next
      case False
      with step(2) Inr have "y = (Inr (acc @ page_components p), ?st1)" by (simp add: Let_def)
      then show ?thesis by simp
    qed
  qed
qed

lemma getComponents_effect:
  "getComponents w c repo st = Some (res, st') \<Longrightarrow>
     hasDeletedComponent st' = hasDeletedComponent st \<and> matched st' = matched st \<and>
     (\<exists>rs. rs \<noteq> [] \<and> requests st' = requests st @ rs \<and> (\<forall>r \<in> set rs. is_listing r))"
  using getComponents_loop_effect [of w c repo "[]" None st "(res, st')"]
  by (simp add: getComponents_def)

lemma getComponents_loop_stops:
  "getComponents_loop w c repo acc tok st = Some y \<Longrightarrow>
     (case fst y of
        Inl e \<Rightarrow> http_get_components w (requests (snd y)) = Inl e
      | Inr comps \<Rightarrow>
          (\<exists>p. http_get_components w (requests (snd y)) = Inr p \<and> \<not> truthy (page_continuationToken p)))"
proof (induct w c repo acc tok st y rule: getComponents_loop.raw_induct [rotated -1, consumes 1, case_names step])
  case (step loop w c repo acc tok st y)
  let ?st1 = "issue (ListComponents (components_url c repo tok)) st"
  show ?case
  proof (cases "http_get_components w (requests ?st1)")
    case (Inl e)
    with step(2) have "y = (Inl e, ?st1)" by (simp add: Let_def)
    with Inl show ?thesis by simp
  next
    case (Inr p)
    show ?thesis
    proof (cases "truthy (page_continuationToken p)")
      case True
      with step(2) Inr
      have "loop w c repo (acc @ page_components p) (page_continuationToken p) ?st1 = Some y"
        by (simp add: Let_def)
      from step(1) [OF this] show ?thesis .
    next
      case False
      with step(2) Inr have "y = (Inr (acc @ page_components p), ?st1)" by (simp add: Let_def)
      with Inr False show ?thesis by simp
    qed
  qed
qed

lemma getComponents_stops:
  assumes "getComponents w c repo st = Some (Inr comps, st')"
  shows "\<exists>p. http_get_components w (requests st') = Inr p \<and> \<not> truthy (page_continuationToken p)"
  using getComponents_loop_stops [of w c repo "[]" None st "(Inr comps, st')"] assms
  by (simp add: getComponents_def)


section \<open>Processing one file\<close>

lemma match_loop_no_match:
  "\<forall>x \<in> set comps. \<not> matches x fi \<Longrightarrow> match_loop w c fi sha comps n st = (n, st)"
  by (induction comps) simp_all

lemma processSingleFile_unreadable:
  "fs_readFile w (getActualFilePath w f) = Inl e \<Longrightarrow>
     processSingleFile w c repo f comps st = (Inl e, st)"
  by (simp add: processSingleFile_def Let_def)

lemma processSingleFile_requests:
  assumes "fs_readFile w (getActualFilePath w f) = Inr d"
  shows "requests (snd (processSingleFile w c repo f comps st)) =
           requests st @
           map (\<lambda>x. DeleteComponent (delete_url c (comp_id x)))
             (filter (\<lambda>x. matches x (getDebInfoWithDpkg w (getActualFilePath w f)) \<and>
                          comp_sha256 x \<noteq> generateSHA256 w d) comps) @
           (if \<exists>x \<in> set comps. matches x (getDebInfoWithDpkg w (getActualFilePath w f)) \<and>
                                 comp_sha256 x = generateSHA256 w d
            then []
            else [UploadComponent (upload_url c repo) (basename (getActualFilePath w f)) d])"
  using assms
  by (simp add: processSingleFile_def Let_def case_prod_beta match_loop_needUpload
      match_loop_requests uploadComponent_requests)

lemma processSingleFile_matched:
  assumes "fs_readFile w (getActualFilePath w f) = Inr d"
  shows "matched (snd (processSingleFile w c repo f comps st)) =
           matched st @ filter (\<lambda>x. matches x (getDebInfoWithDpkg w (getActualFilePath w f))) comps"
  using assms
  by (simp add: processSingleFile_def Let_def case_prod_beta match_loop_matched uploadComponent_matched)

lemma processSingleFile_tracks:
  "flag_tracks w st \<Longrightarrow> flag_tracks w (snd (processSingleFile w c repo f comps st))"
  by (simp add: processSingleFile_def Let_def case_prod_beta match_loop_tracks uploadComponent_tracks
      split: sum.splits)

lemma processSingleFile_flag_mono:
  "hasDeletedComponent st \<Longrightarrow> hasDeletedComponent (snd (processSingleFile w c repo f comps st))"
  by (simp add: processSingleFile_def Let_def case_prod_beta match_loop_flag_mono uploadComponent_flag
      split: sum.splits)

lemma processSingleFile_appends:
  "\<exists>rs. requests (snd (processSingleFile w c repo f comps st)) = requests st @ rs \<and>
        (\<forall>r \<in> set rs. is_delete r \<or> is_upload r)"
proof (cases "fs_readFile w (getActualFilePath w f)")
  case (Inl e)
  then show ?thesis by (simp add: processSingleFile_unreadable)
next
  case (Inr d)
  show ?thesis
    by (rule exI, rule conjI, rule processSingleFile_requests [OF Inr]) auto
qed

lemma match_loop_all_current:
  "\<forall>x \<in> set comps. matches x fi \<longrightarrow> comp_sha256 x = sha \<Longrightarrow>
     snd (match_loop w c fi sha comps n st) = st\<lparr> matched := matched st @ filter (\<lambda>x. matches x fi) comps \<rparr>"
  by (induction comps arbitrary: n st) (simp_all add: Let_def)

section \<open>The whole run\<close>

lemma process_files_tracks:
  "flag_tracks w st \<Longrightarrow> flag_tracks w (snd (process_files w c repo up files comps st))"
proof (induction files arbitrary: st)
  case Nil
  then show ?case by simp
next
  case (Cons f fs)
  let ?p = "if up = ''.'' then f else path_join w up f"
  obtain r st1 where p: "processSingleFile w c repo ?p comps st = (r, st1)"
    by (cases "processSingleFile w c repo ?p comps st")
  with processSingleFile_tracks [OF Cons.prems, of c repo ?p comps] have "flag_tracks w st1" by simp
  with Cons.IH [of st1] p show ?case by (cases r) (simp_all add: Let_def)
qed

lemma process_files_flag_mono:
  "hasDeletedComponent st \<Longrightarrow> hasDeletedComponent (snd (process_files w c repo up files comps st))"
proof (induction files arbitrary: st)
  case Nil
  then show ?case by simp
next
  case (Cons f fs)
  let ?p = "if up = ''.'' then f else path_join w up f"
  obtain r st1 where p: "processSingleFile w c repo ?p comps st = (r, st1)"
    by (cases "processSingleFile w c repo ?p comps st")
  with processSingleFile_flag_mono [OF Cons.prems, of w c repo ?p comps]
  have "hasDeletedComponent st1" by simp
  with Cons.IH [of st1] p show ?case by (cases r) (simp_all add: Let_def)
qed

lemma process_files_appends:
  "\<exists>rs. requests (snd (process_files w c repo up files comps st)) = requests st @ rs \<and>
        (\<forall>r \<in> set rs. is_delete r \<or> is_upload r)"
proof (induction files arbitrary: st)
  case Nil
  then show ?case by simp
next
  case (Cons f fs)
  let ?p = "if up = ''.'' then f else path_join w up f"
  obtain r st1 where p: "processSingleFile w c repo ?p comps st = (r, st1)"
    by (cases "processSingleFile w c repo ?p comps st")
  from processSingleFile_appends [of w c repo ?p comps st] p
  obtain rs where a: "requests st1 = requests st @ rs" "\<forall>r \<in> set rs. is_delete r \<or> is_upload r"
    by auto
  show ?case
  proof (cases r)
    case (Inl e)
    with p a show ?thesis by (simp add: Let_def)
  next
    case (Inr u)
    from Cons.IH [of st1] obtain rs' where
      b: "requests (snd (process_files w c repo up fs comps st1)) = requests st1 @ rs'"
         "\<forall>r \<in> set rs'. is_delete r \<or> is_upload r"
      by blast
    from a b have "requests (snd (process_files w c repo up fs comps st1)) = requests st @ (rs @ rs')"
      and "\<forall>r \<in> set (rs @ rs'). is_delete r \<or> is_upload r"
      by auto
    with p Inr show ?thesis by (simp add: Let_def)
  qed
qed

lemma runRebuildAptMetadata_flag:
  "hasDeletedComponent (snd (runRebuildAptMetadata w c st)) = hasDeletedComponent st"
  by (simp add: runRebuildAptMetadata_def Let_def split: sum.splits prod.splits option.splits)

lemma runRebuildAptMetadata_requests:
  "\<exists>rs. requests (snd (runRebuildAptMetadata w c st)) = requests st @ ListTasks (tasks_url c) # rs \<and>
        (\<forall>r \<in> set rs. is_task_call r)"
  by (simp add: runRebuildAptMetadata_def Let_def split: sum.splits prod.splits option.splits)

lemma run_finish_flag: "hasDeletedComponent (snd (run_finish w c st)) = hasDeletedComponent st"
  by (simp add: run_finish_def runRebuildAptMetadata_flag)

lemma run_finish_requests:
  "\<exists>ts. requests (snd (run_finish w c st)) = requests st @ ts \<and> (\<forall>r \<in> set ts. is_task_call r) \<and>
        (ts \<noteq> [] \<longrightarrow> hasDeletedComponent st) \<and>
        (hasDeletedComponent st \<longrightarrow> ListTasks (tasks_url c) \<in> set ts)"
proof (cases "hasDeletedComponent st")
  case True
  from runRebuildAptMetadata_requests [of w c st] obtain rs where
    "requests (snd (runRebuildAptMetadata w c st)) = requests st @ ListTasks (tasks_url c) # rs"
    "\<forall>r \<in> set rs. is_task_call r" by blast
  with True show ?thesis
    by (intro exI [of _ "ListTasks (tasks_url c) # rs"]) (simp add: run_finish_def)
next
  case False
  then show ?thesis by (simp add: run_finish_def)
qed

lemma run_path_phases:
  assumes "run_path w c repo up comps st = (out, st')"
  shows "\<exists>st2. (\<exists>ms. requests st2 = requests st @ ms \<and> (\<forall>r \<in> set ms. is_delete r \<or> is_upload r)) \<and>
           (flag_tracks w st \<longrightarrow> flag_tracks w st2) \<and>
           (hasDeletedComponent st \<longrightarrow> hasDeletedComponent st2) \<and>
           ((out, st') = run_finish w c st2 \<or> (out \<noteq> SetOutputResult \<and> st' = st2))"
proof (cases "fs_stat w up")
  case (Inl e)
  with assms have "out = SetFailed (Thrown e)" "st' = st" by (simp_all add: run_path_def)
  then show ?thesis by (intro exI [of _ st]) simp
next
  case (Inr s)
  show ?thesis
  proof (cases s)
    case IsFile
    show ?thesis
    proof (cases "endsWith (toLowerCase up) ''.deb''")
      case True
      obtain r st1 where p: "processSingleFile w c repo up comps st = (r, st1)"
        by (cases "processSingleFile w c repo up comps st")
      have k: "(out, st') = run_finish w c st1 \<or> (out \<noteq> SetOutputResult \<and> st' = st1)"
        using assms Inr IsFile True p by (cases r) (auto simp: run_path_def)
      show ?thesis
        using processSingleFile_appends [of w c repo up comps st]
          processSingleFile_tracks [of w st c repo up comps]
          processSingleFile_flag_mono [of st w c repo up comps] p k
        by (intro exI [of _ st1]) simp
    next
      case False
      with assms Inr IsFile have "out = SetFailed (NotADebFile up)" "st' = st"
        by (simp_all add: run_path_def)
      then show ?thesis by (intro exI [of _ st]) simp
    qed
  next
    case IsDirectory
    show ?thesis
    proof (cases "fs_readdir w up")
      case (Inl e)
      with assms Inr IsDirectory have "out = SetFailed (Thrown e)" "st' = st"
        by (simp_all add: run_path_def)
      then show ?thesis by (intro exI [of _ st]) simp
    next
      case files: (Inr files)
      let ?debs = "filter (\<lambda>file. endsWith (toLowerCase file) ''.deb'') files"
      obtain r st1 where p: "process_files w c repo up ?debs comps st = (r, st1)"
        by (cases "process_files w c repo up ?debs comps st")
      have k: "(out, st') = run_finish w c st1 \<or> (out \<noteq> SetOutputResult \<and> st' = st1)"
        using assms Inr IsDirectory files p by (cases r) (auto simp: run_path_def Let_def)
      show ?thesis
        using process_files_appends [of w c repo up ?debs comps st]
          process_files_tracks [of w st c repo up ?debs comps]
          process_files_flag_mono [of st w c repo up ?debs comps] p k
        by (intro exI [of _ st1]) simp
    qed
  next
    case IsOther
    with assms Inr have "out = SetFailed (NeitherFileNorDirectory up)" "st' = st"
      by (simp_all add: run_path_def)
    then show ?thesis by (intro exI [of _ st]) simp
  qed
qed

lemma task_call_not_delete: "is_task_call r \<Longrightarrow> \<not> is_delete r"
  by (cases r) simp_all

lemma listing_not_delete: "is_listing r \<Longrightarrow> \<not> is_delete r"
  by (cases r) simp_all

lemma deletion_occurred_has_delete:
  "deletion_occurred w rs \<Longrightarrow> \<exists>r \<in> set rs. is_delete r"
proof (induction rs rule: rev_induct)
  case Nil
  then show ?case by simp
next
  case (snoc x xs)
  then show ?case by (auto simp: deletion_occurred_snoc)
qed

lemma flag_tracks_initial: "flag_tracks w initial_state"
  by (simp add: flag_tracks_def initial_state_def)

lemma run_path_summary:
  assumes "run_path w c repo up comps st = (out, st')" and "flag_tracks w st"
  shows "\<exists>ms ts. requests st' = requests st @ ms @ ts \<and>
           (\<forall>r \<in> set ms. is_delete r \<or> is_upload r) \<and> (\<forall>r \<in> set ts. is_task_call r) \<and>
           flag_tracks w st' \<and> (ts \<noteq> [] \<longrightarrow> hasDeletedComponent st') \<and>
           (out = SetOutputResult \<and> hasDeletedComponent st' \<longrightarrow> ListTasks (tasks_url c) \<in> set ts)"
proof -
  from run_path_phases [OF assms(1)] assms(2) obtain st2 ms where
    ms: "requests st2 = requests st @ ms" "\<forall>r \<in> set ms. is_delete r \<or> is_upload r"
    and tr: "flag_tracks w st2"
    and fin: "(out, st') = run_finish w c st2 \<or> (out \<noteq> SetOutputResult \<and> st' = st2)"
    by blast
  from fin show ?thesis
  proof
    assume f: "(out, st') = run_finish w c st2"
    then have st': "st' = snd (run_finish w c st2)" by (metis snd_conv)
    from run_finish_requests [of w c st2] obtain ts where
      ts: "requests st' = requests st2 @ ts" "\<forall>r \<in> set ts. is_task_call r"
          "ts \<noteq> [] \<longrightarrow> hasDeletedComponent st2"
          "hasDeletedComponent st2 \<longrightarrow> ListTasks (tasks_url c) \<in> set ts"
      unfolding st' by blast
    have fl: "hasDeletedComponent st' = hasDeletedComponent st2"
      unfolding st' by (rule run_finish_flag)
    have "\<forall>r \<in> set ts. \<not> is_delete r" using ts(2) task_call_not_delete by blast
    then have "deletion_occurred w (requests st') = deletion_occurred w (requests st2)"
      unfolding ts(1) by (rule deletion_occurred_append)
    with tr fl have "flag_tracks w st'" by (simp add: flag_tracks_def)
    with ms ts fl show ?thesis
      by (intro exI [of _ ms] exI [of _ ts]) simp
  next
    assume "out \<noteq> SetOutputResult \<and> st' = st2"
    with ms tr show ?thesis
      by (intro exI [of _ ms] exI [of _ "[]"]) simp
  qed
qed

lemma run_summary:
  assumes "run w inp = Some (out, st)"
  shows "\<exists>ls ms ts. requests st = ls @ ms @ ts \<and>
           (\<forall>r \<in> set ls. is_listing r) \<and>
           (\<forall>r \<in> set ms. is_delete r \<or> is_upload r) \<and>
           (\<forall>r \<in> set ts. is_task_call r) \<and>
           flag_tracks w st \<and> (ts \<noteq> [] \<longrightarrow> hasDeletedComponent st) \<and>
           (out = SetOutputResult \<and> hasDeletedComponent st \<longrightarrow> (\<exists>u. ListTasks u \<in> set ts))"
proof (cases "read_inputs w inp")
  case (Inl e)
  with assms have "st = initial_state" by (simp add: run_def)
  then show ?thesis
    by (intro exI [of _ "[]"]) (simp add: flag_tracks_initial, simp add: initial_state_def)
next
  case (Inr t)
  then obtain repo up c where t: "read_inputs w inp = Inr (repo, up, c)" by (cases t) auto
  from assms t obtain res st1 where g: "getComponents w c repo initial_state = Some (res, st1)"
    by (cases "getComponents w c repo initial_state") (auto simp: run_def)
  from getComponents_effect [OF g] obtain ls where
    ls: "requests st1 = ls" "\<forall>r \<in> set ls. is_listing r"
    and fl: "\<not> hasDeletedComponent st1"
    by (auto simp: initial_state_def)
  have "\<forall>r \<in> set ls. \<not> is_delete r" using ls(2) listing_not_delete by blast
  from deletion_occurred_append [OF this, of w "[]"] have "\<not> deletion_occurred w ls" by simp
  with ls fl have tr: "flag_tracks w st1" by (simp add: flag_tracks_def)
  show ?thesis
  proof (cases res)
    case (Inl e)
    with assms t g have "st = st1" by (simp add: run_def)
    with ls tr fl show ?thesis
      by (intro exI [of _ ls] exI [of _ "[]"]) simp
  next
    case (Inr comps)
    with assms t g have "run_path w c repo up comps st1 = (out, st)" by (simp add: run_def)
    from run_path_summary [OF this tr] obtain ms ts where
      m: "requests st = requests st1 @ ms @ ts" "\<forall>r \<in> set ms. is_delete r \<or> is_upload r"
         "\<forall>r \<in> set ts. is_task_call r" "flag_tracks w st" "ts \<noteq> [] \<longrightarrow> hasDeletedComponent st"
         "out = SetOutputResult \<and> hasDeletedComponent st \<longrightarrow> ListTasks (tasks_url c) \<in> set ts"
      by blast
    have "out = SetOutputResult \<and> hasDeletedComponent st \<longrightarrow> (\<exists>u. ListTasks u \<in> set ts)"
      using m(6) by blast
    with m ls show ?thesis
      by (intro exI [of _ ls] exI [of _ ms] exI [of _ ts]) simp
  qed
qed

lemma run_tracks:
  assumes "run w inp = Some (out, st)"
  shows "flag_tracks w st"
proof -
  from run_summary [OF assms] obtain ls ms ts where "flag_tracks w st" by blast
  then show ?thesis .
qed

lemma run_task_calls_need_flag:
  assumes "run w inp = Some (out, st)" and "r \<in> set (requests st)" and "is_task_call r"
  shows "hasDeletedComponent st"
proof -
  from run_summary [OF assms(1)] obtain ls ms ts where
    a: "requests st = ls @ ms @ ts" "\<forall>r \<in> set ls. is_listing r"
       "\<forall>r \<in> set ms. is_delete r \<or> is_upload r" "ts \<noteq> [] \<longrightarrow> hasDeletedComponent st"
    by blast
  have "r \<notin> set ls" using a(2) assms(3) by (cases r) auto
  moreover have "r \<notin> set ms" using a(3) assms(3) by (cases r) auto
  ultimately have "r \<in> set ts" using a(1) assms(2) by simp
  with a(4) show ?thesis by auto
qed

lemma run_completed_lists_tasks:
  assumes "run w inp = Some (SetOutputResult, st)" and "hasDeletedComponent st"
  shows "\<exists>u. ListTasks u \<in> set (requests st)"
proof -
  from run_summary [OF assms(1)] assms(2) obtain ls ms ts u where
    "requests st = ls @ ms @ ts" "ListTasks u \<in> set ts" by blast
  then show ?thesis by auto
qed

lemma run_path_flag_mono:
  assumes "hasDeletedComponent st"
  shows "hasDeletedComponent (snd (run_path w c repo up comps st))"
proof -
  obtain out st' where r: "run_path w c repo up comps st = (out, st')"
    by (cases "run_path w c repo up comps st")
  from run_path_phases [OF r] assms obtain st2 where
    a: "hasDeletedComponent st2"
    and fin: "(out, st') = run_finish w c st2 \<or> (out \<noteq> SetOutputResult \<and> st' = st2)"
    by blast
  from fin have "hasDeletedComponent st'"
  proof
    assume "(out, st') = run_finish w c st2"
    then have "st' = snd (run_finish w c st2)" by (metis snd_conv)
    with a show ?thesis by (simp add: run_finish_flag)
  next
    assume "out \<noteq> SetOutputResult \<and> st' = st2"
    with a show ?thesis by simp
  qed
  with r show ?thesis by simp
qed

lemma read_inputs_given:
  assumes "input_repository inp \<noteq> []" "input_path inp \<noteq> []" "input_nexus_url inp \<noteq> []"
    "input_nexus_user inp \<noteq> []" "input_nexus_password inp \<noteq> []"
  shows "read_inputs w inp =
           Inr (trim (input_repository inp), trim (input_path inp),
                \<lparr> baseURL = trim (input_nexus_url inp), auth_username = trim (input_nexus_user inp),
                  auth_password = trim (input_nexus_password inp), csrfToken = ''0.'' @ csrf_digits w \<rparr>)"
  using assms by (simp add: read_inputs_def getInput_def)

lemma read_inputs_missing:
  assumes "\<not> (input_repository inp \<noteq> [] \<and> input_path inp \<noteq> [] \<and> input_nexus_url inp \<noteq> [] \<and>
              input_nexus_user inp \<noteq> [] \<and> input_nexus_password inp \<noteq> [])"
  shows "\<exists>e. read_inputs w inp = Inl e"
  using assms by (auto simp: read_inputs_def getInput_def)

lemma runRebuildAptMetadata_exact:
  "\<exists>rest. requests (snd (runRebuildAptMetadata w c st)) = requests st @ ListTasks (tasks_url c) # rest \<and>
     (\<forall>tasks t. http_get_tasks w (requests st @ [ListTasks (tasks_url c)]) = Inr (200, Some tasks) \<and>
                find (\<lambda>t. task_type t = ''repository.apt.rebuild.metadata'') tasks = Some t \<longrightarrow>
                rest = [RunTask (task_run_url c (task_id t))]) \<and>
     (\<not> (\<exists>tasks t. http_get_tasks w (requests st @ [ListTasks (tasks_url c)]) = Inr (200, Some tasks) \<and>
                find (\<lambda>t. task_type t = ''repository.apt.rebuild.metadata'') tasks = Some t) \<longrightarrow>
      rest = [])"
proof (cases "http_get_tasks w (requests st @ [ListTasks (tasks_url c)])")
  case (Inl e)
  then show ?thesis by (simp add: runRebuildAptMetadata_def Let_def)
next
  case (Inr a)
  obtain status items where a: "a = (status, items)" by (cases a)
  show ?thesis
  proof (cases "status = 200")
    case False
    with Inr a show ?thesis by (simp add: runRebuildAptMetadata_def Let_def)
  next
    case True
    show ?thesis
    proof (cases items)
      case None
      with Inr a True show ?thesis by (simp add: runRebuildAptMetadata_def Let_def)
    next
      case (Some tasks)
      show ?thesis
      proof (cases "find (\<lambda>t. task_type t = ''repository.apt.rebuild.metadata'') tasks")
        case None
        with Inr a True Some show ?thesis by (simp add: runRebuildAptMetadata_def Let_def)
      next
        case found: (Some t)
        with Inr a True Some show ?thesis
          by (simp add: runRebuildAptMetadata_def Let_def split: sum.splits)
      qed
    qed
  qed
qed

lemma run_completed:
  assumes "run w inp = Some (SetOutputResult, st)"
  shows "\<exists>repo up c st2. read_inputs w inp = Inr (repo, up, c) \<and>
           (SetOutputResult, st) = run_finish w c st2 \<and>
           (\<forall>r \<in> set (requests st2). \<not> is_task_call r) \<and> flag_tracks w st2"
proof (cases "read_inputs w inp")
  case (Inl e)
  with assms show ?thesis by (simp add: run_def)
next
  case (Inr t)
  then obtain repo up c where t: "read_inputs w inp = Inr (repo, up, c)" by (cases t) auto
  from assms t obtain res st1 where g: "getComponents w c repo initial_state = Some (res, st1)"
    by (cases "getComponents w c repo initial_state") (auto simp: run_def)
  from getComponents_effect [OF g] obtain ls where
    ls: "requests st1 = ls" "\<forall>r \<in> set ls. is_listing r"
    and fl: "\<not> hasDeletedComponent st1"
    by (auto simp: initial_state_def)
  have "\<forall>r \<in> set ls. \<not> is_delete r" using ls(2) listing_not_delete by blast
  from deletion_occurred_append [OF this, of w "[]"] have "\<not> deletion_occurred w ls" by simp
  with ls fl have tr: "flag_tracks w st1" by (simp add: flag_tracks_def)
  from assms t g obtain comps where res: "res = Inr comps"
    by (cases res) (simp_all add: run_def)
  with assms t g have rp: "run_path w c repo up comps st1 = (SetOutputResult, st)"
    by (simp add: run_def)
  from run_path_phases [OF rp] tr obtain st2 ms where
    ms: "requests st2 = requests st1 @ ms" "\<forall>r \<in> set ms. is_delete r \<or> is_upload r"
    and tr2: "flag_tracks w st2"
    and fin: "(SetOutputResult, st) = run_finish w c st2"
    by blast
  have "\<not> is_task_call r" if "r \<in> set (requests st2)" for r
  proof -
    from that ms(1) ls(1) have "r \<in> set ls \<or> r \<in> set ms" by auto
    then show ?thesis using ls(2) ms(2) by (cases r) auto
  qed
  with t fin tr2 show ?thesis by blast
qed

lemma read_inputs_Inr:
  assumes "read_inputs w inp = Inr (repo, up, c)"
  shows "input_repository inp \<noteq> [] \<and> input_path inp \<noteq> [] \<and> input_nexus_url inp \<noteq> [] \<and>
         input_nexus_user inp \<noteq> [] \<and> input_nexus_password inp \<noteq> []"
    and "repo = trim (input_repository inp)" and "up = trim (input_path inp)"
    and "c = \<lparr> baseURL = trim (input_nexus_url inp), auth_username = trim (input_nexus_user inp),
               auth_password = trim (input_nexus_password inp), csrfToken = ''0.'' @ csrf_digits w \<rparr>"
proof -
  show g: "input_repository inp \<noteq> [] \<and> input_path inp \<noteq> [] \<and> input_nexus_url inp \<noteq> [] \<and>
         input_nexus_user inp \<noteq> [] \<and> input_nexus_password inp \<noteq> []"
    using read_inputs_missing [of inp w] assms by auto
  then have "read_inputs w inp =
           Inr (trim (input_repository inp), trim (input_path inp),
                \<lparr> baseURL = trim (input_nexus_url inp), auth_username = trim (input_nexus_user inp),
                  auth_password = trim (input_nexus_password inp), csrfToken = ''0.'' @ csrf_digits w \<rparr>)"
    by (intro read_inputs_given) simp_all
  with assms show "repo = trim (input_repository inp)" "up = trim (input_path inp)"
    "c = \<lparr> baseURL = trim (input_nexus_url inp), auth_username = trim (input_nexus_user inp),
               auth_password = trim (input_nexus_password inp), csrfToken = ''0.'' @ csrf_digits w \<rparr>"
    by simp_all
qed

lemma getComponents_loop_cursors:
  assumes "ps \<noteq> []"
    and "\<forall>i < length ps.
           http_get_components w
             (requests st @ take (Suc i) (map (\<lambda>t. ListComponents (components_url c repo t))
                                            (tok # map page_continuationToken (butlast ps))))
           = Inr (ps ! i)"
    and "\<forall>i < length ps. truthy (page_continuationToken (ps ! i)) = (Suc i < length ps)"
  shows "getComponents_loop w c repo acc tok st =
           Some (Inr (acc @ concat (map page_components ps)),
                 st\<lparr> requests := requests st @
                        map (\<lambda>t. ListComponents (components_url c repo t))
                          (tok # map page_continuationToken (butlast ps)) \<rparr>)"
  using assms
proof (induction ps arbitrary: acc tok st)
  case Nil
  then show ?case by simp
next
  case (Cons p ps)
  let ?st1 = "issue (ListComponents (components_url c repo tok)) st"
  have first: "http_get_components w (requests ?st1) = Inr p"
    using Cons.prems(2) [rule_format, of 0] by simp
  show ?case
  proof (cases "ps = []")
    case True
    with Cons.prems(3) have "\<not> truthy (page_continuationToken p)" by simp
    with first True show ?thesis
      by (subst getComponents_loop.simps) (simp add: Let_def issue_def)
  next
    case False
    then have t: "truthy (page_continuationToken p)"
      using Cons.prems(3) [rule_format, of 0] by (cases ps) simp_all
    have h: "\<forall>i < length ps.
           http_get_components w
             (requests ?st1 @ take (Suc i) (map (\<lambda>t. ListComponents (components_url c repo t))
                                            (page_continuationToken p # map page_continuationToken (butlast ps))))
           = Inr (ps ! i)"
    proof (intro allI impI)
      fix i assume "i < length ps"
      then show "http_get_components w
             (requests ?st1 @ take (Suc i) (map (\<lambda>t. ListComponents (components_url c repo t))
                                            (page_continuationToken p # map page_continuationToken (butlast ps))))
           = Inr (ps ! i)"
        using Cons.prems(2) [rule_format, of "Suc i"] False by simp
    qed
    have k: "\<forall>i < length ps. truthy (page_continuationToken (ps ! i)) = (Suc i < length ps)"
    proof (intro allI impI)
      fix i assume "i < length ps"
      then show "truthy (page_continuationToken (ps ! i)) = (Suc i < length ps)"
        using Cons.prems(3) [rule_format, of "Suc i"] by simp
    qed
    note ih = Cons.IH [OF False h k, of "acc @ page_components p"]
    show ?thesis
      using first t ih False
      by (subst getComponents_loop.simps) (simp add: Let_def issue_def)
  qed
qed

lemma split_str_no_sep: "sep \<notin> set s \<Longrightarrow> split_str sep s = [s]"
  by (induction s) auto

lemma split_str_one_sep:
  "sep \<notin> set p \<Longrightarrow> sep \<notin> set q \<Longrightarrow> split_str sep (p @ sep # q) = [p, q]"
  by (induction p) (auto simp: split_str_no_sep)

lemma extract_no_underscore:
  assumes "CHR ''_'' \<notin> set (basename_ext filename ''.deb'')"
  shows "extractInfoFromFilename filename =
           \<lparr> fi_name = (if basename_ext filename ''.deb'' = [] then ''-'' else basename_ext filename ''.deb''),
             fi_group = (if basename_ext filename ''.deb'' = [] then ''-'' else basename_ext filename ''.deb''),
             fi_version = ''-'' \<rparr>"
  using assms by (simp add: extractInfoFromFilename_def Let_def split_str_no_sep at_index_def)

lemma extract_one_underscore:
  assumes "basename_ext filename ''.deb'' = p @ CHR ''_'' # q" "CHR ''_'' \<notin> set p" "CHR ''_'' \<notin> set q"
  shows "extractInfoFromFilename filename =
           \<lparr> fi_name = (if p = [] then ''-'' else p),
             fi_group = (if q = [] then ''-'' else q),
             fi_version = ''-'' \<rparr>"
  using assms by (simp add: extractInfoFromFilename_def Let_def split_str_one_sep at_index_def)

section \<open>Facts about the examples\<close>

lemma example_foo_readable:
  "fs_readFile (example_world p d u) (getActualFilePath (example_world p d u) ''foo_1.0.0_amd64.deb'') =
     Inr ''foo 1.0.0 amd64 build 2''"
  by (simp add: example_world_def getActualFilePath_def example_readFile_def)

lemma example_foo_info:
  "getDebInfoWithDpkg (example_world p d u) (getActualFilePath (example_world p d u) ''foo_1.0.0_amd64.deb'') =
     \<lparr> fi_name = ''foo'', fi_group = ''amd64'', fi_version = ''1.0.0'' \<rparr>"
proof -
  have "extractInfoFromFilename ''foo_1.0.0_amd64.deb'' =
          \<lparr> fi_name = ''foo'', fi_group = ''amd64'', fi_version = ''1.0.0'' \<rparr>"
    by code_simp
  then show ?thesis
    by (simp add: example_world_def getActualFilePath_def getDebInfoWithDpkg_def)
qed

lemma example_foo_sha256:
  "generateSHA256 (example_world p d u) ''foo 1.0.0 amd64 build 2'' = foo_sha256"
  by (simp add: example_world_def generateSHA256_def example_sha256_def)

lemma example_foo_basename:
  "basename (getActualFilePath (example_world p d u) ''foo_1.0.0_amd64.deb'') = ''foo_1.0.0_amd64.deb''"
proof -
  have "basename ''foo_1.0.0_amd64.deb'' = ''foo_1.0.0_amd64.deb''" by code_simp
  then show ?thesis by (simp add: example_world_def getActualFilePath_def)
qed

lemma sha_distinct: "foo_old_sha256 \<noteq> foo_sha256" "foo_sha256 \<noteq> ''-''"
  by (simp_all add: foo_old_sha256_def foo_sha256_def)

section \<open>The claims\<close>

subsection \<open>C1\<close>

text \<open>
  Claim C1: a failed upload is a fatal error of the run: it is propagated, the remaining
  artifacts are not processed, and the run reports failure.

  The script does not behave so. \<^verbatim>\<open>uploadComponent\<close> catches every failure and
  returns \<^verbatim>\<open>false\<close>, and \<^verbatim>\<open>processSingleFile\<close> drops that result. In the
  directory \<^verbatim>\<open>dist\<close>, against an empty repository whose uploads are all rejected, the
  run uploads the first package, is refused, goes on to the second package all the
  same, and ends with the output that the upload succeeded.
\<close>

theorem rejected_uploads_reported_as_success:
  "run (example_world (one_page []) accepted rejected) (example_inputs ''dist'') =
     Some (SetOutputResult,
           \<lparr> hasDeletedComponent = False,
             requests =
               [ListComponents ''http://nexus:8081/service/rest/v1/components?repository=apt-hosted'',
                UploadComponent ''http://nexus:8081/service/rest/v1/components?repository=apt-hosted''
                  ''bar_2.1_all.deb'' ''bar 2.1 all'',
                UploadComponent ''http://nexus:8081/service/rest/v1/components?repository=apt-hosted''
                  ''foo_1.0.0_amd64.deb'' ''foo 1.0.0 amd64 build 2''],
             matched = [] \<rparr>) \<and>
   http_post_component (example_world (one_page []) accepted rejected)
     [ListComponents ''http://nexus:8081/service/rest/v1/components?repository=apt-hosted'',
      UploadComponent ''http://nexus:8081/service/rest/v1/components?repository=apt-hosted''
        ''bar_2.1_all.deb'' ''bar 2.1 all''] =
     Inl (Error ''Request failed with status code 500'') \<and>
   http_post_component (example_world (one_page []) accepted rejected)
     [ListComponents ''http://nexus:8081/service/rest/v1/components?repository=apt-hosted'',
      UploadComponent ''http://nexus:8081/service/rest/v1/components?repository=apt-hosted''
        ''bar_2.1_all.deb'' ''bar 2.1 all'',
      UploadComponent ''http://nexus:8081/service/rest/v1/components?repository=apt-hosted''
        ''foo_1.0.0_amd64.deb'' ''foo 1.0.0 amd64 build 2''] =
     Inl (Error ''Request failed with status code 500'')"
  by code_simp

subsection \<open>C2\<close>




subsection \<open>C3\<close>

text \<open>
  Claim C3: the decision policy of \<^verbatim>\<open>processSingleFile\<close> for a file that can be read.
  A matching record is current when its digest equals the file's and stale otherwise.
  The loop leaves \<^verbatim>\<open>needUpload\<close> true exactly when no matching record is current;
  the requests of the call are one delete for each stale matching record, in the order
  of the snapshot (none for a current record, none for a record that does not match),
  followed by one upload exactly when no matching record is current. In particular a
  matching record without a digest, which the snapshot records as \<^verbatim>\<open>'-'\<close>, is deleted.
  A delete here is the request: whether the registry carries it out is another matter.
\<close>

theorem processSingleFile_decision_policy:
  assumes "fs_readFile w (getActualFilePath w filePath) = Inr fileData"
  shows "let fileInfo = getDebInfoWithDpkg w (getActualFilePath w filePath);
             fileSha256 = generateSHA256 w fileData;
             current = (\<lambda>x. matches x fileInfo \<and> comp_sha256 x = fileSha256);
             stale = (\<lambda>x. matches x fileInfo \<and> comp_sha256 x \<noteq> fileSha256);
             st' = snd (processSingleFile w config repository filePath components st)
         in fst (match_loop w config fileInfo fileSha256 components True st) =
              (\<not> (\<exists>x \<in> set components. current x)) \<and>
            requests st' =
              requests st @
              map (\<lambda>x. DeleteComponent (delete_url config (comp_id x))) (filter stale components) @
              (if \<exists>x \<in> set components. current x then []
               else [UploadComponent (upload_url config repository)
                       (basename (getActualFilePath w filePath)) fileData]) \<and>
            (fileSha256 \<noteq> ''-'' \<longrightarrow>
               (\<forall>x \<in> set components. matches x fileInfo \<and> comp_sha256 x = ''-'' \<longrightarrow>
                  DeleteComponent (delete_url config (comp_id x)) \<in> set (requests st')))"
proof -
  let ?fi = "getDebInfoWithDpkg w (getActualFilePath w filePath)"
  let ?sha = "generateSHA256 w fileData"
  let ?st' = "snd (processSingleFile w config repository filePath components st)"
  note r = processSingleFile_requests [OF assms, of config repository components st]
  have "DeleteComponent (delete_url config (comp_id x)) \<in> set (requests ?st')"
    if "?sha \<noteq> ''-''" "x \<in> set components" "matches x ?fi" "comp_sha256 x = ''-''" for x
  proof -
    from that have "x \<in> set (filter (\<lambda>x. matches x ?fi \<and> comp_sha256 x \<noteq> ?sha) components)"
      by auto
    then have "DeleteComponent (delete_url config (comp_id x)) \<in>
                 set (map (\<lambda>x. DeleteComponent (delete_url config (comp_id x)))
                        (filter (\<lambda>x. matches x ?fi \<and> comp_sha256 x \<noteq> ?sha) components))"
      by (simp only: set_map) (rule imageI)
    then show ?thesis unfolding r by simp
  qed
  then show ?thesis
    unfolding Let_def using r by (simp add: match_loop_needUpload)
qed

theorem processSingleFile_decision_policy_witness:
  "requests (snd (processSingleFile (example_world (one_page []) accepted accepted) example_config
      ''apt-hosted'' ''foo_1.0.0_amd64.deb''
      [foo_component ''c1'' foo_old_sha256, bar_component, foo_component ''c2'' foo_sha256, bare_foo_component]
      initial_state)) =
   [DeleteComponent ''http://nexus:8081/service/rest/v1/components/c1'',
    DeleteComponent ''http://nexus:8081/service/rest/v1/components/c4'']"
proof -
  let ?comps = "[foo_component ''c1'' foo_old_sha256, bar_component, foo_component ''c2'' foo_sha256,
                 bare_foo_component]"
  let ?fi = "\<lparr> fi_name = ''foo'', fi_group = ''amd64'', fi_version = ''1.0.0'' \<rparr>"
  have "requests (snd (processSingleFile (example_world (one_page []) accepted accepted) example_config
          ''apt-hosted'' ''foo_1.0.0_amd64.deb'' ?comps initial_state)) =
        requests initial_state @
        map (\<lambda>x. DeleteComponent (delete_url example_config (comp_id x)))
          (filter (\<lambda>x. matches x ?fi \<and> comp_sha256 x \<noteq> foo_sha256) ?comps) @
        (if \<exists>x \<in> set ?comps. matches x ?fi \<and> comp_sha256 x = foo_sha256 then []
         else [UploadComponent (upload_url example_config ''apt-hosted'') ''foo_1.0.0_amd64.deb''
                 ''foo 1.0.0 amd64 build 2''])"
    using processSingleFile_decision_policy [OF example_foo_readable [of "one_page []" accepted accepted],
        where config = example_config and repository = "''apt-hosted''" and components = ?comps
          and st = initial_state]
    by (simp only: Let_def example_foo_info example_foo_sha256 example_foo_basename)
  also have "\<dots> = [DeleteComponent ''http://nexus:8081/service/rest/v1/components/c1'',
                   DeleteComponent ''http://nexus:8081/service/rest/v1/components/c4'']"
    by code_simp
  finally show ?thesis .
qed

subsection \<open>C4\<close>

text \<open>
  Claim C4: the matching rule. A record matches a descriptor exactly when the names are
  equal, the groups are equal or one of them is the sentinel \<^verbatim>\<open>'-'\<close>, and the versions
  are equal or one of them is the sentinel; so a descriptor whose group and version are
  both the sentinel matches every record of its name. The loop of
  \<^verbatim>\<open>processSingleFile\<close> reports every record of the snapshot that satisfies the rule,
  in order, not only the first.
\<close>

theorem matching_rule_visits_every_match:
  assumes "fs_readFile w (getActualFilePath w filePath) = Inr fileData"
  shows "let fileInfo = getDebInfoWithDpkg w (getActualFilePath w filePath);
             st' = snd (processSingleFile w config repository filePath components st)
         in (matches cmp d \<longleftrightarrow>
               comp_name cmp = fi_name d \<and>
               (comp_group cmp = fi_group d \<or> comp_group cmp = ''-'' \<or> fi_group d = ''-'') \<and>
               (comp_version cmp = fi_version d \<or> comp_version cmp = ''-'' \<or> fi_version d = ''-'')) \<and>
            (fi_group d = ''-'' \<and> fi_version d = ''-'' \<longrightarrow> (matches cmp d \<longleftrightarrow> comp_name cmp = fi_name d)) \<and>
            matched st' =
              matched st @
              filter (\<lambda>x. comp_name x = fi_name fileInfo \<and>
                          (comp_group x = fi_group fileInfo \<or> comp_group x = ''-'' \<or> fi_group fileInfo = ''-'') \<and>
                          (comp_version x = fi_version fileInfo \<or> comp_version x = ''-'' \<or>
                           fi_version fileInfo = ''-'')) components"
proof -
  have "matched (snd (processSingleFile w config repository filePath components st)) =
          matched st @ filter (\<lambda>x. matches x (getDebInfoWithDpkg w (getActualFilePath w filePath))) components"
    by (rule processSingleFile_matched [OF assms])
  then show ?thesis
    unfolding Let_def matches_def by simp
qed

theorem matching_rule_visits_every_match_witness:
  "matched (snd (processSingleFile (example_world (one_page []) accepted accepted) example_config
      ''apt-hosted'' ''foo_1.0.0_amd64.deb''
      [foo_component ''c1'' foo_old_sha256, bar_component, foo_component ''c2'' foo_sha256, bare_foo_component]
      initial_state)) =
   [foo_component ''c1'' foo_old_sha256, foo_component ''c2'' foo_sha256, bare_foo_component]"
proof -
  let ?comps = "[foo_component ''c1'' foo_old_sha256, bar_component, foo_component ''c2'' foo_sha256,
                 bare_foo_component]"
  let ?fi = "\<lparr> fi_name = ''foo'', fi_group = ''amd64'', fi_version = ''1.0.0'' \<rparr>"
  have "matched (snd (processSingleFile (example_world (one_page []) accepted accepted) example_config
          ''apt-hosted'' ''foo_1.0.0_amd64.deb'' ?comps initial_state)) =
        matched initial_state @
        filter (\<lambda>x. comp_name x = fi_name ?fi \<and>
                    (comp_group x = fi_group ?fi \<or> comp_group x = ''-'' \<or> fi_group ?fi = ''-'') \<and>
                    (comp_version x = fi_version ?fi \<or> comp_version x = ''-'' \<or> fi_version ?fi = ''-''))
          ?comps"
    using matching_rule_visits_every_match [OF example_foo_readable [of "one_page []" accepted accepted],
        where config = example_config and repository = "''apt-hosted''" and components = ?comps
          and st = initial_state]
    by (simp only: Let_def example_foo_info)
  also have "\<dots> = [foo_component ''c1'' foo_old_sha256, foo_component ''c2'' foo_sha256, bare_foo_component]"
    by code_simp
  finally show ?thesis .
qed

subsection \<open>C5\<close>

text \<open>
  Claim C5: pagination. Let the registry answer the requests of the listing with the
  pages \<open>ps\<close>, of which every page but the last carries a continuation token (one that
  is present and not empty). Then \<^verbatim>\<open>getComponents\<close> returns, with the records of all
  pages concatenated in order; it has issued exactly one request for each page, the
  first without a token and each later one with the token of the page before it, and
  nothing else. And whenever the listing returns its records, the answer to its last
  request carried no token: it ends there and nowhere else.
\<close>

theorem getComponents_follows_cursors:
  assumes "ps \<noteq> []"
    and "\<forall>i < length ps.
           http_get_components w
             (requests st @ take (Suc i) (map (\<lambda>t. ListComponents (components_url config repository t))
                                            (None # map page_continuationToken (butlast ps))))
           = Inr (ps ! i)"
    and "\<forall>i < length ps. truthy (page_continuationToken (ps ! i)) = (Suc i < length ps)"
  shows "getComponents w config repository st =
           Some (Inr (concat (map page_components ps)),
                 st\<lparr> requests := requests st @
                        map (\<lambda>t. ListComponents (components_url config repository t))
                          (None # map page_continuationToken (butlast ps)) \<rparr>) \<and>
         length (None # map page_continuationToken (butlast ps)) = length ps \<and>
         (\<forall>components st'.
            getComponents w config repository st = Some (Inr components, st') \<longrightarrow>
            (\<exists>p. http_get_components w (requests st') = Inr p \<and> \<not> truthy (page_continuationToken p)))"
proof (intro conjI allI impI)
  show "getComponents w config repository st =
           Some (Inr (concat (map page_components ps)),
                 st\<lparr> requests := requests st @
                        map (\<lambda>t. ListComponents (components_url config repository t))
                          (None # map page_continuationToken (butlast ps)) \<rparr>)"
    using getComponents_loop_cursors [OF assms, of "[]"] by (simp add: getComponents_def)
  show "length (None # map page_continuationToken (butlast ps)) = length ps"
    using assms(1) by simp
  show "\<exists>p. http_get_components w (requests st') = Inr p \<and> \<not> truthy (page_continuationToken p)"
    if "getComponents w config repository st = Some (Inr components, st')" for components st'
    using that by (rule getComponents_stops)
qed

theorem getComponents_follows_cursors_witness:
  "getComponents (example_world two_pages accepted accepted) example_config ''apt-hosted'' initial_state =
     Some (Inr [foo_component ''c1'' foo_old_sha256, foo_component ''c2'' foo_sha256],
           \<lparr> hasDeletedComponent = False,
             requests =
               [ListComponents ''http://nexus:8081/service/rest/v1/components?repository=apt-hosted'',
                ListComponents ''http://nexus:8081/service/rest/v1/components?repository=apt-hosted&continuationToken=88491cd1d185dd136f143f20c4e7d50c''],
             matched = [] \<rparr>)"
proof -
  let ?w = "example_world two_pages accepted accepted"
  let ?ps = "[first_page, last_page]"
  have n: "?ps \<noteq> []" by simp
  have h: "\<forall>i < length ?ps.
             http_get_components ?w
               (requests initial_state @
                take (Suc i) (map (\<lambda>t. ListComponents (components_url example_config ''apt-hosted'' t))
                                (None # map page_continuationToken (butlast ?ps))))
             = Inr (?ps ! i)"
    by (simp add: less_Suc_eq example_world_def two_pages_def initial_state_def)
  have t: "\<forall>i < length ?ps. truthy (page_continuationToken (?ps ! i)) = (Suc i < length ?ps)"
    by (simp add: less_Suc_eq first_page_def last_page_def)
  have "getComponents ?w example_config ''apt-hosted'' initial_state =
          Some (Inr (concat (map page_components ?ps)),
                initial_state\<lparr> requests := requests initial_state @
                   map (\<lambda>t. ListComponents (components_url example_config ''apt-hosted'' t))
                     (None # map page_continuationToken (butlast ?ps)) \<rparr>)"
    using getComponents_follows_cursors [OF n h t] by (rule conjunct1)
  also have "\<dots> = Some (Inr [foo_component ''c1'' foo_old_sha256, foo_component ''c2'' foo_sha256],
           \<lparr> hasDeletedComponent = False,
             requests =
               [ListComponents ''http://nexus:8081/service/rest/v1/components?repository=apt-hosted'',
                ListComponents ''http://nexus:8081/service/rest/v1/components?repository=apt-hosted&continuationToken=88491cd1d185dd136f143f20c4e7d50c''],
             matched = [] \<rparr>)"
    by code_simp
  finally show ?thesis .
qed

subsection \<open>C6\<close>

text \<open>
  Claim C6, as amended. In every run that returns, a task call is issued only if a
  deletion occurred, that is, if the registry answered one of the run's delete requests
  with 204; so a run without a delete request calls neither task endpoint. In a run
  that reaches its end (it sets the output), the tasks are listed if and only if a
  deletion occurred. The listing is then the first task call, and the rebuild is
  triggered, by one request to run the first listed task of the type
  \<^verbatim>\<open>repository.apt.rebuild.metadata\<close>, exactly when the listing is answered with the
  status 200 and a list that has a task of that type; otherwise the listing is the
  run's last request.
\<close>

theorem rebuild_iff_deletion_occurred:
  assumes "run w inp = Some (out, st)"
  shows "((\<exists>r \<in> set (requests st). is_task_call r) \<longrightarrow> deletion_occurred w (requests st)) \<and>
         (out = SetOutputResult \<longrightarrow>
            ((\<exists>u. ListTasks u \<in> set (requests st)) \<longleftrightarrow> deletion_occurred w (requests st))) \<and>
         ((\<forall>r \<in> set (requests st). \<not> is_delete r) \<longrightarrow> (\<forall>r \<in> set (requests st). \<not> is_task_call r)) \<and>
         (out = SetOutputResult \<and> deletion_occurred w (requests st) \<longrightarrow>
            (\<exists>pre rest.
               requests st = pre @ ListTasks (trim (input_nexus_url inp) @ ''/service/rest/v1/tasks'') # rest \<and>
               (\<forall>r \<in> set pre. \<not> is_task_call r) \<and>
               (\<forall>tasks t.
                  http_get_tasks w (pre @ [ListTasks (trim (input_nexus_url inp) @ ''/service/rest/v1/tasks'')]) =
                    Inr (200, Some tasks) \<and>
                  find (\<lambda>t. task_type t = ''repository.apt.rebuild.metadata'') tasks = Some t \<longrightarrow>
                  rest = [RunTask (trim (input_nexus_url inp) @ ''/service/rest/v1/tasks/'' @ task_id t @ ''/run'')]) \<and>
               (\<not> (\<exists>tasks t.
                  http_get_tasks w (pre @ [ListTasks (trim (input_nexus_url inp) @ ''/service/rest/v1/tasks'')]) =
                    Inr (200, Some tasks) \<and>
                  find (\<lambda>t. task_type t = ''repository.apt.rebuild.metadata'') tasks = Some t) \<longrightarrow>
                rest = [])))"
proof -
  have tr: "hasDeletedComponent st = deletion_occurred w (requests st)"
    using run_tracks [OF assms] by (simp add: flag_tracks_def)
  have a: "(\<exists>r \<in> set (requests st). is_task_call r) \<longrightarrow> deletion_occurred w (requests st)"
    using run_task_calls_need_flag [OF assms] tr by blast
  have b: "out = SetOutputResult \<longrightarrow>
            ((\<exists>u. ListTasks u \<in> set (requests st)) \<longleftrightarrow> deletion_occurred w (requests st))"
  proof
    assume o: "out = SetOutputResult"
    have "(\<exists>u. ListTasks u \<in> set (requests st)) \<Longrightarrow> deletion_occurred w (requests st)"
      using a is_task_call.simps(1) by blast
    moreover have "deletion_occurred w (requests st) \<Longrightarrow> \<exists>u. ListTasks u \<in> set (requests st)"
      using run_completed_lists_tasks [of w inp st] assms o tr by simp
    ultimately show "(\<exists>u. ListTasks u \<in> set (requests st)) \<longleftrightarrow> deletion_occurred w (requests st)"
      by blast
  qed
  have c: "(\<forall>r \<in> set (requests st). \<not> is_delete r) \<longrightarrow> (\<forall>r \<in> set (requests st). \<not> is_task_call r)"
    using a deletion_occurred_has_delete [of w "requests st"] by blast
  let ?lt = "ListTasks (trim (input_nexus_url inp) @ ''/service/rest/v1/tasks'')"
  have d: "\<exists>pre rest.
               requests st = pre @ ?lt # rest \<and>
               (\<forall>r \<in> set pre. \<not> is_task_call r) \<and>
               (\<forall>tasks t.
                  http_get_tasks w (pre @ [?lt]) = Inr (200, Some tasks) \<and>
                  find (\<lambda>t. task_type t = ''repository.apt.rebuild.metadata'') tasks = Some t \<longrightarrow>
                  rest = [RunTask (trim (input_nexus_url inp) @ ''/service/rest/v1/tasks/'' @ task_id t @ ''/run'')]) \<and>
               (\<not> (\<exists>tasks t.
                  http_get_tasks w (pre @ [?lt]) = Inr (200, Some tasks) \<and>
                  find (\<lambda>t. task_type t = ''repository.apt.rebuild.metadata'') tasks = Some t) \<longrightarrow>
                rest = [])"
    if o: "out = SetOutputResult" and del: "deletion_occurred w (requests st)"
  proof -
    from run_completed [of w inp st] assms o obtain repo up c st2 where
      ri: "read_inputs w inp = Inr (repo, up, c)"
      and fin: "(SetOutputResult, st) = run_finish w c st2"
      and pre: "\<forall>r \<in> set (requests st2). \<not> is_task_call r"
      by blast
    from fin have st: "st = snd (run_finish w c st2)" by (metis snd_conv)
    from del tr have "hasDeletedComponent st" by simp
    then have f2: "hasDeletedComponent st2" unfolding st by (simp add: run_finish_flag)
    then have st': "st = snd (runRebuildAptMetadata w c st2)" unfolding st by (simp add: run_finish_def)
    have url: "tasks_url c = trim (input_nexus_url inp) @ ''/service/rest/v1/tasks''"
      and run_url: "task_run_url c i = trim (input_nexus_url inp) @ ''/service/rest/v1/tasks/'' @ i @ ''/run''" for i
      unfolding read_inputs_Inr(4) [OF ri] by (simp_all add: tasks_url_def task_run_url_def)
    from runRebuildAptMetadata_exact [of w c st2] obtain rest where
      "requests st = requests st2 @ ?lt # rest"
      "\<forall>tasks t. http_get_tasks w (requests st2 @ [?lt]) = Inr (200, Some tasks) \<and>
                find (\<lambda>t. task_type t = ''repository.apt.rebuild.metadata'') tasks = Some t \<longrightarrow>
                rest = [RunTask (trim (input_nexus_url inp) @ ''/service/rest/v1/tasks/'' @ task_id t @ ''/run'')]"
      "\<not> (\<exists>tasks t. http_get_tasks w (requests st2 @ [?lt]) = Inr (200, Some tasks) \<and>
                find (\<lambda>t. task_type t = ''repository.apt.rebuild.metadata'') tasks = Some t) \<longrightarrow>
       rest = []"
      unfolding st' url run_url by blast
    with pre show ?thesis
      by (intro exI [of _ "requests st2"] exI [of _ rest] conjI)
  qed
  from a b c d show ?thesis by blast
qed

theorem rebuild_iff_deletion_occurred_witness:
  "run (example_world (one_page [foo_item ''c1'' foo_old_sha256]) accepted accepted)
     (example_inputs ''foo_1.0.0_amd64.deb'') =
     Some (SetOutputResult,
           \<lparr> hasDeletedComponent = True,
             requests =
               [ListComponents ''http://nexus:8081/service/rest/v1/components?repository=apt-hosted'',
                DeleteComponent ''http://nexus:8081/service/rest/v1/components/c1'',
                UploadComponent ''http://nexus:8081/service/rest/v1/components?repository=apt-hosted''
                  ''foo_1.0.0_amd64.deb'' ''foo 1.0.0 amd64 build 2'',
                ListTasks ''http://nexus:8081/service/rest/v1/tasks'',
                RunTask ''http://nexus:8081/service/rest/v1/tasks/7f3a/run''],
             matched = [foo_component ''c1'' foo_old_sha256] \<rparr>) \<and>
   deletion_occurred (example_world (one_page [foo_item ''c1'' foo_old_sha256]) accepted accepted)
     [ListComponents ''http://nexus:8081/service/rest/v1/components?repository=apt-hosted'',
      DeleteComponent ''http://nexus:8081/service/rest/v1/components/c1'',
      UploadComponent ''http://nexus:8081/service/rest/v1/components?repository=apt-hosted''
        ''foo_1.0.0_amd64.deb'' ''foo 1.0.0 amd64 build 2'',
      ListTasks ''http://nexus:8081/service/rest/v1/tasks'',
      RunTask ''http://nexus:8081/service/rest/v1/tasks/7f3a/run'']"
proof -
  let ?w = "example_world (one_page [foo_item ''c1'' foo_old_sha256]) accepted accepted"
  let ?rs = "[ListComponents ''http://nexus:8081/service/rest/v1/components?repository=apt-hosted'',
      DeleteComponent ''http://nexus:8081/service/rest/v1/components/c1'',
      UploadComponent ''http://nexus:8081/service/rest/v1/components?repository=apt-hosted''
        ''foo_1.0.0_amd64.deb'' ''foo 1.0.0 amd64 build 2'',
      ListTasks ''http://nexus:8081/service/rest/v1/tasks'',
      RunTask ''http://nexus:8081/service/rest/v1/tasks/7f3a/run'']"
  let ?st = "\<lparr> hasDeletedComponent = True, requests = ?rs, matched = [foo_component ''c1'' foo_old_sha256] \<rparr>"
  have r: "run ?w (example_inputs ''foo_1.0.0_amd64.deb'') = Some (SetOutputResult, ?st)"
    by code_simp
  have "(\<exists>u. ListTasks u \<in> set (requests ?st)) \<longleftrightarrow> deletion_occurred ?w (requests ?st)"
    using rebuild_iff_deletion_occurred [OF r] by blast
  moreover have "\<exists>u. ListTasks u \<in> set (requests ?st)" by simp
  ultimately have "deletion_occurred ?w (requests ?st)" by blast
  with r show ?thesis by simp
qed

text \<open>
  The claim as stated fails in two ways. Where the run is aborted after a deletion, the
  rebuild is not reached: in the directory \<^verbatim>\<open>out\<close> the stale record of the first
  package is deleted, the second entry cannot be read, and the run fails without a task
  call. And where the run reaches its end after a deletion but the registry lists no
  task of the type, the tasks are listed and none is run.
\<close>

theorem deletion_without_triggered_rebuild:
  "run (example_world (one_page [foo_item ''c1'' foo_old_sha256]) accepted accepted) (example_inputs ''out'') =
     Some (SetFailed (Thrown (Error ''EISDIR: illegal operation on a directory, read'')),
           \<lparr> hasDeletedComponent = True,
             requests =
               [ListComponents ''http://nexus:8081/service/rest/v1/components?repository=apt-hosted'',
                DeleteComponent ''http://nexus:8081/service/rest/v1/components/c1'',
                UploadComponent ''http://nexus:8081/service/rest/v1/components?repository=apt-hosted''
                  ''foo_1.0.0_amd64.deb'' ''foo 1.0.0 amd64 build 2''],
             matched = [foo_component ''c1'' foo_old_sha256] \<rparr>) \<and>
   http_delete_component (example_world (one_page [foo_item ''c1'' foo_old_sha256]) accepted accepted)
     [ListComponents ''http://nexus:8081/service/rest/v1/components?repository=apt-hosted'',
      DeleteComponent ''http://nexus:8081/service/rest/v1/components/c1''] = Inr 204 \<and>
   run (example_world_without_task (one_page [foo_item ''c1'' foo_old_sha256]) accepted accepted)
     (example_inputs ''foo_1.0.0_amd64.deb'') =
     Some (SetOutputResult,
           \<lparr> hasDeletedComponent = True,
             requests =
               [ListComponents ''http://nexus:8081/service/rest/v1/components?repository=apt-hosted'',
                DeleteComponent ''http://nexus:8081/service/rest/v1/components/c1'',
                UploadComponent ''http://nexus:8081/service/rest/v1/components?repository=apt-hosted''
                  ''foo_1.0.0_amd64.deb'' ''foo 1.0.0 amd64 build 2'',
                ListTasks ''http://nexus:8081/service/rest/v1/tasks''],
             matched = [foo_component ''c1'' foo_old_sha256] \<rparr>) \<and>
   http_delete_component
     (example_world_without_task (one_page [foo_item ''c1'' foo_old_sha256]) accepted accepted)
     [ListComponents ''http://nexus:8081/service/rest/v1/components?repository=apt-hosted'',
      DeleteComponent ''http://nexus:8081/service/rest/v1/components/c1''] = Inr 204"
  by code_simp

subsection \<open>C7\<close>

text \<open>
  Claim C7, as amended. When the snapshot has a record that matches the file's
  descriptor exactly, digest included, \<^verbatim>\<open>processSingleFile\<close> issues no upload; its
  only requests are the deletes of the other matching records whose digest differs.
  When every matching record has the file's digest, it issues no request at all and
  leaves the flag as it was.
\<close>

theorem exact_match_never_uploads:
  assumes "fs_readFile w (getActualFilePath w filePath) = Inr fileData"
    and "x \<in> set components"
    and "comp_name x = fi_name (getDebInfoWithDpkg w (getActualFilePath w filePath))"
    and "comp_group x = fi_group (getDebInfoWithDpkg w (getActualFilePath w filePath))"
    and "comp_version x = fi_version (getDebInfoWithDpkg w (getActualFilePath w filePath))"
    and "comp_sha256 x = generateSHA256 w fileData"
  shows "let fileInfo = getDebInfoWithDpkg w (getActualFilePath w filePath);
             fileSha256 = generateSHA256 w fileData
         in requests (snd (processSingleFile w config repository filePath components st)) =
              requests st @
              map (\<lambda>y. DeleteComponent (delete_url config (comp_id y)))
                (filter (\<lambda>y. matches y fileInfo \<and> comp_sha256 y \<noteq> fileSha256) components) \<and>
            ((\<forall>y \<in> set components. matches y fileInfo \<longrightarrow> comp_sha256 y = fileSha256) \<longrightarrow>
               processSingleFile w config repository filePath components st =
                 (Inr (), st\<lparr> matched := matched st @ filter (\<lambda>y. matches y fileInfo) components \<rparr>))"
proof -
  let ?fi = "getDebInfoWithDpkg w (getActualFilePath w filePath)"
  let ?sha = "generateSHA256 w fileData"
  have m: "matches x ?fi" using assms(3-5) by (simp add: matches_def)
  with assms(2,6) have cur: "\<exists>y \<in> set components. matches y ?fi \<and> comp_sha256 y = ?sha" by blast
  have a: "requests (snd (processSingleFile w config repository filePath components st)) =
              requests st @
              map (\<lambda>y. DeleteComponent (delete_url config (comp_id y)))
                (filter (\<lambda>y. matches y ?fi \<and> comp_sha256 y \<noteq> ?sha) components)"
    using processSingleFile_requests [OF assms(1), of config repository components st] cur by simp
  have b: "processSingleFile w config repository filePath components st =
                 (Inr (), st\<lparr> matched := matched st @ filter (\<lambda>y. matches y ?fi) components \<rparr>)"
    if all: "\<forall>y \<in> set components. matches y ?fi \<longrightarrow> comp_sha256 y = ?sha"
  proof -
    have "fst (match_loop w config ?fi ?sha components True st) = False"
      using cur by (simp add: match_loop_needUpload)
    moreover note match_loop_all_current [OF all, of w config True st]
    ultimately show ?thesis
      using assms(1) by (simp add: processSingleFile_def Let_def case_prod_beta)
  qed
  from a b show ?thesis unfolding Let_def by blast
qed

theorem exact_match_never_uploads_witness:
  "processSingleFile (example_world (one_page []) accepted accepted) example_config
      ''apt-hosted'' ''foo_1.0.0_amd64.deb'' [bar_component, foo_component ''c2'' foo_sha256] initial_state =
   (Inr (), \<lparr> hasDeletedComponent = False, requests = [], matched = [foo_component ''c2'' foo_sha256] \<rparr>)"
proof -
  let ?w = "example_world (one_page []) accepted accepted"
  let ?comps = "[bar_component, foo_component ''c2'' foo_sha256]"
  let ?fi = "\<lparr> fi_name = ''foo'', fi_group = ''amd64'', fi_version = ''1.0.0'' \<rparr>"
  let ?x = "foo_component ''c2'' foo_sha256"
  note info = example_foo_info [of "one_page []" accepted accepted]
  note sha = example_foo_sha256 [of "one_page []" accepted accepted]
  have m: "?x \<in> set ?comps" by simp
  have a: "comp_name ?x = fi_name (getDebInfoWithDpkg ?w (getActualFilePath ?w ''foo_1.0.0_amd64.deb''))"
    "comp_group ?x = fi_group (getDebInfoWithDpkg ?w (getActualFilePath ?w ''foo_1.0.0_amd64.deb''))"
    "comp_version ?x = fi_version (getDebInfoWithDpkg ?w (getActualFilePath ?w ''foo_1.0.0_amd64.deb''))"
    "comp_sha256 ?x = generateSHA256 ?w ''foo 1.0.0 amd64 build 2''"
    unfolding info sha by (simp_all add: foo_component_def)
  have all: "\<forall>y \<in> set ?comps. matches y ?fi \<longrightarrow> comp_sha256 y = foo_sha256"
    by code_simp
  have "processSingleFile ?w example_config ''apt-hosted'' ''foo_1.0.0_amd64.deb'' ?comps initial_state =
          (Inr (), initial_state\<lparr> matched := matched initial_state @ filter (\<lambda>y. matches y ?fi) ?comps \<rparr>)"
    using exact_match_never_uploads [OF example_foo_readable [of "one_page []" accepted accepted] m a,
        where config = example_config and repository = "''apt-hosted''" and st = initial_state]
      all
    by (simp only: Let_def info sha)
  also have "\<dots> = (Inr (), \<lparr> hasDeletedComponent = False, requests = [],
                          matched = [foo_component ''c2'' foo_sha256] \<rparr>)"
    by code_simp
  finally show ?thesis .
qed

text \<open>
  The claim as stated, that no delete is issued, fails when a second record of the same
  name, group and version has another digest: it is deleted.
\<close>

theorem exact_match_still_deletes_stale_duplicate:
  "getDebInfoWithDpkg (example_world (one_page []) accepted accepted) ''foo_1.0.0_amd64.deb'' =
     \<lparr> fi_name = ''foo'', fi_group = ''amd64'', fi_version = ''1.0.0'' \<rparr> \<and>
   generateSHA256 (example_world (one_page []) accepted accepted) ''foo 1.0.0 amd64 build 2'' = foo_sha256 \<and>
   requests (snd (processSingleFile (example_world (one_page []) accepted accepted) example_config
      ''apt-hosted'' ''foo_1.0.0_amd64.deb''
      [foo_component ''c2'' foo_sha256, foo_component ''c1'' foo_old_sha256] initial_state)) =
   [DeleteComponent ''http://nexus:8081/service/rest/v1/components/c1'']"
  by code_simp

subsection \<open>C8\<close>

text \<open>
  Claim C8: for a file that can be read and matches no record of the snapshot,
  \<^verbatim>\<open>processSingleFile\<close> issues exactly one request, the upload of the file, and
  changes nothing else.
\<close>

theorem no_match_uploads_once:
  assumes "fs_readFile w (getActualFilePath w filePath) = Inr fileData"
    and "\<forall>x \<in> set components. \<not> matches x (getDebInfoWithDpkg w (getActualFilePath w filePath))"
  shows "processSingleFile w config repository filePath components st =
           (Inr (), st\<lparr> requests := requests st @
                          [UploadComponent (upload_url config repository)
                             (basename (getActualFilePath w filePath)) fileData] \<rparr>)"
  using assms
  by (simp add: processSingleFile_def Let_def match_loop_no_match uploadComponent_def issue_def
      split: sum.splits)

theorem no_match_uploads_once_witness:
  "processSingleFile (example_world (one_page []) accepted accepted) example_config
      ''apt-hosted'' ''foo_1.0.0_amd64.deb'' [bar_component] initial_state =
   (Inr (), \<lparr> hasDeletedComponent = False,
              requests = [UploadComponent ''http://nexus:8081/service/rest/v1/components?repository=apt-hosted''
                            ''foo_1.0.0_amd64.deb'' ''foo 1.0.0 amd64 build 2''],
              matched = [] \<rparr>)"
proof -
  let ?w = "example_world (one_page []) accepted accepted"
  note info = example_foo_info [of "one_page []" accepted accepted]
  have n: "\<forall>x \<in> set [bar_component].
             \<not> matches x (getDebInfoWithDpkg ?w (getActualFilePath ?w ''foo_1.0.0_amd64.deb''))"
    unfolding info by code_simp
  have "processSingleFile ?w example_config ''apt-hosted'' ''foo_1.0.0_amd64.deb'' [bar_component] initial_state =
          (Inr (), initial_state\<lparr> requests := requests initial_state @
               [UploadComponent (upload_url example_config ''apt-hosted'') ''foo_1.0.0_amd64.deb''
                  ''foo 1.0.0 amd64 build 2''] \<rparr>)"
    using no_match_uploads_once [OF example_foo_readable [of "one_page []" accepted accepted] n,
        where config = example_config and repository = "''apt-hosted''" and st = initial_state]
    by (simp only: example_foo_basename)
  also have "\<dots> = (Inr (), \<lparr> hasDeletedComponent = False,
              requests = [UploadComponent ''http://nexus:8081/service/rest/v1/components?repository=apt-hosted''
                            ''foo_1.0.0_amd64.deb'' ''foo 1.0.0 amd64 build 2''],
              matched = [] \<rparr>)"
    by code_simp
  finally show ?thesis .
qed

subsection \<open>C9\<close>

text \<open>
  Claim C9: \<^verbatim>\<open>hasDeletedComponent\<close>. After \<^verbatim>\<open>deleteComponent\<close> the flag is set
  exactly when it was set before or the registry answered this delete with 204; a
  failed delete or another status leaves it as it was. Neither an upload nor the
  rebuild changes it, and no step of a run resets it. So a run in which no delete
  request was answered with 204 ends with the flag unset and without a task call.
\<close>

theorem deletion_flag_only_on_204:
  "hasDeletedComponent (snd (deleteComponent w config ident st)) =
     (hasDeletedComponent st \<or>
      http_delete_component w (requests st @ [DeleteComponent (delete_url config ident)]) = Inr 204) \<and>
   hasDeletedComponent (snd (uploadComponent w config repository filePath st)) = hasDeletedComponent st \<and>
   hasDeletedComponent (snd (runRebuildAptMetadata w config st)) = hasDeletedComponent st \<and>
   (hasDeletedComponent st \<longrightarrow>
      hasDeletedComponent (snd (processSingleFile w config repository filePath components st))) \<and>
   (hasDeletedComponent st \<longrightarrow>
      hasDeletedComponent (snd (run_path w config repository uploadPath components st))) \<and>
   (\<forall>out st'. run w inp = Some (out, st') \<and>
        (\<forall>h \<in> set (histories (requests st')). is_delete (last h) \<longrightarrow> http_delete_component w h \<noteq> Inr 204)
      \<longrightarrow> \<not> hasDeletedComponent st' \<and> (\<forall>r \<in> set (requests st'). \<not> is_task_call r))"
proof -
  have last: "\<not> hasDeletedComponent st' \<and> (\<forall>r \<in> set (requests st'). \<not> is_task_call r)"
    if r: "run w inp = Some (out, st')"
      and f: "\<forall>h \<in> set (histories (requests st')). is_delete (last h) \<longrightarrow> http_delete_component w h \<noteq> Inr 204"
    for out st'
  proof -
    from f have "\<not> deletion_occurred w (requests st')" by (auto simp: deletion_occurred_def)
    with run_tracks [OF r] have n: "\<not> hasDeletedComponent st'" by (simp add: flag_tracks_def)
    with run_task_calls_need_flag [OF r] show ?thesis by blast
  qed
  show ?thesis
  proof (intro conjI allI impI)
    show "hasDeletedComponent (snd (deleteComponent w config ident st)) =
            (hasDeletedComponent st \<or>
             http_delete_component w (requests st @ [DeleteComponent (delete_url config ident)]) = Inr 204)"
      by (rule deleteComponent_flag)
    show "hasDeletedComponent (snd (uploadComponent w config repository filePath st)) = hasDeletedComponent st"
      by (rule uploadComponent_flag)
    show "hasDeletedComponent (snd (runRebuildAptMetadata w config st)) = hasDeletedComponent st"
      by (rule runRebuildAptMetadata_flag)
    show "hasDeletedComponent (snd (processSingleFile w config repository filePath components st))"
      if "hasDeletedComponent st" using that by (rule processSingleFile_flag_mono)
    show "hasDeletedComponent (snd (run_path w config repository uploadPath components st))"
      if "hasDeletedComponent st" using that by (rule run_path_flag_mono)
    show "\<not> hasDeletedComponent st'"
      if "run w inp = Some (out, st') \<and>
          (\<forall>h \<in> set (histories (requests st')). is_delete (last h) \<longrightarrow> http_delete_component w h \<noteq> Inr 204)"
      for out st' using that last [of out st'] by simp
    show "\<forall>r \<in> set (requests st'). \<not> is_task_call r"
      if "run w inp = Some (out, st') \<and>
          (\<forall>h \<in> set (histories (requests st')). is_delete (last h) \<longrightarrow> http_delete_component w h \<noteq> Inr 204)"
      for out st' using that last [of out st'] by simp
  qed
qed

theorem deletion_flag_only_on_204_witness:
  "run (example_world (one_page [foo_item ''c1'' foo_old_sha256]) rejected accepted)
     (example_inputs ''foo_1.0.0_amd64.deb'') =
     Some (SetOutputResult,
           \<lparr> hasDeletedComponent = False,
             requests =
               [ListComponents ''http://nexus:8081/service/rest/v1/components?repository=apt-hosted'',
                DeleteComponent ''http://nexus:8081/service/rest/v1/components/c1'',
                UploadComponent ''http://nexus:8081/service/rest/v1/components?repository=apt-hosted''
                  ''foo_1.0.0_amd64.deb'' ''foo 1.0.0 amd64 build 2''],
             matched = [foo_component ''c1'' foo_old_sha256] \<rparr>) \<and>
   filter is_task_call
     [ListComponents ''http://nexus:8081/service/rest/v1/components?repository=apt-hosted'',
      DeleteComponent ''http://nexus:8081/service/rest/v1/components/c1'',
      UploadComponent ''http://nexus:8081/service/rest/v1/components?repository=apt-hosted''
        ''foo_1.0.0_amd64.deb'' ''foo 1.0.0 amd64 build 2''] = []"
proof -
  let ?w = "example_world (one_page [foo_item ''c1'' foo_old_sha256]) rejected accepted"
  let ?rs = "[ListComponents ''http://nexus:8081/service/rest/v1/components?repository=apt-hosted'',
                DeleteComponent ''http://nexus:8081/service/rest/v1/components/c1'',
                UploadComponent ''http://nexus:8081/service/rest/v1/components?repository=apt-hosted''
                  ''foo_1.0.0_amd64.deb'' ''foo 1.0.0 amd64 build 2'']"
  let ?st = "\<lparr> hasDeletedComponent = False, requests = ?rs, matched = [foo_component ''c1'' foo_old_sha256] \<rparr>"
  have r: "run ?w (example_inputs ''foo_1.0.0_amd64.deb'') = Some (SetOutputResult, ?st)"
    by code_simp
  have f: "\<forall>h \<in> set (histories (requests ?st)). is_delete (last h) \<longrightarrow> http_delete_component ?w h \<noteq> Inr 204"
    by (simp add: example_world_def rejected_def)
  have "\<not> hasDeletedComponent ?st \<and> (\<forall>r \<in> set (requests ?st). \<not> is_task_call r)"
    using deletion_flag_only_on_204 [where w = ?w and inp = "example_inputs ''foo_1.0.0_amd64.deb''",
        THEN conjunct2, THEN conjunct2, THEN conjunct2, THEN conjunct2, THEN conjunct2, rule_format,
        of SetOutputResult ?st] r f
    by blast
  with r show ?thesis by (simp add: filter_empty_conv)
qed

subsection \<open>C10\<close>

text \<open>
  Claim C10, as amended: the file name fallback on few parts. Let \<open>b\<close> be the base name
  without \<^verbatim>\<open>.deb\<close>. Without an underscore in \<open>b\<close>, name and group are both \<open>b\<close>, or
  both \<^verbatim>\<open>'-'\<close> when \<open>b\<close> is empty, and the version is \<^verbatim>\<open>'-'\<close>. With exactly one
  underscore, the version is \<^verbatim>\<open>'-'\<close>, the name is the part before it and the group the
  part after it, each replaced by \<^verbatim>\<open>'-'\<close> when empty.
\<close>

theorem extractInfoFromFilename_few_parts:
  "(CHR ''_'' \<notin> set (basename_ext filename ''.deb'') \<longrightarrow>
      extractInfoFromFilename filename =
        \<lparr> fi_name = (if basename_ext filename ''.deb'' = [] then ''-'' else basename_ext filename ''.deb''),
          fi_group = (if basename_ext filename ''.deb'' = [] then ''-'' else basename_ext filename ''.deb''),
          fi_version = ''-'' \<rparr>) \<and>
   (\<forall>p q. basename_ext filename ''.deb'' = p @ CHR ''_'' # q \<and> CHR ''_'' \<notin> set p \<and> CHR ''_'' \<notin> set q \<longrightarrow>
      extractInfoFromFilename filename =
        \<lparr> fi_name = (if p = [] then ''-'' else p),
          fi_group = (if q = [] then ''-'' else q),
          fi_version = ''-'' \<rparr>)"
  using extract_no_underscore extract_one_underscore by blast

theorem extractInfoFromFilename_few_parts_witness:
  "CHR ''_'' \<notin> set (basename_ext ''tool.deb'' ''.deb'') \<and>
   extractInfoFromFilename ''tool.deb'' = \<lparr> fi_name = ''tool'', fi_group = ''tool'', fi_version = ''-'' \<rparr> \<and>
   basename_ext ''tool_amd64.deb'' ''.deb'' = ''tool'' @ CHR ''_'' # ''amd64'' \<and>
   extractInfoFromFilename ''tool_amd64.deb'' = \<lparr> fi_name = ''tool'', fi_group = ''amd64'', fi_version = ''-'' \<rparr>"
proof -
  have b: "basename_ext ''tool.deb'' ''.deb'' = ''tool''" by code_simp
  have c: "basename_ext ''tool_amd64.deb'' ''.deb'' = ''tool'' @ CHR ''_'' # ''amd64''" by code_simp
  have n: "CHR ''_'' \<notin> set (basename_ext ''tool.deb'' ''.deb'')" unfolding b by simp
  from extractInfoFromFilename_few_parts [of "''tool.deb''"] n
  have 1: "extractInfoFromFilename ''tool.deb'' = \<lparr> fi_name = ''tool'', fi_group = ''tool'', fi_version = ''-'' \<rparr>"
    unfolding b by simp
  from extractInfoFromFilename_few_parts [of "''tool_amd64.deb''"] c
  have 2: "extractInfoFromFilename ''tool_amd64.deb'' = \<lparr> fi_name = ''tool'', fi_group = ''amd64'', fi_version = ''-'' \<rparr>"
    by fastforce
  show ?thesis using n 1 2 c by simp
qed

text \<open>
  The claim as stated fails where a part is empty or is itself \<^verbatim>\<open>'-'\<close>: the group of
  \<^verbatim>\<open>a_.deb\<close> is not its second part but the sentinel, which matches every group, and
  so is the group of \<^verbatim>\<open>-.deb\<close>.
\<close>

theorem empty_last_part_gives_sentinel_group:
  "basename_ext ''a_.deb'' ''.deb'' = ''a_'' \<and> split_str CHR ''_'' ''a_'' = [''a'', []] \<and>
   extractInfoFromFilename ''a_.deb'' = \<lparr> fi_name = ''a'', fi_group = ''-'', fi_version = ''-'' \<rparr> \<and>
   basename_ext ''-.deb'' ''.deb'' = ''-'' \<and>
   extractInfoFromFilename ''-.deb'' = \<lparr> fi_name = ''-'', fi_group = ''-'', fi_version = ''-'' \<rparr>"
  by code_simp

end
